theory Spec2Isabelle
  imports Main
begin

section \<open>Strings and number formatting\<close>

text \<open>
  Python strings are modelled as \<^typ>\<open>string\<close>. \<open>str.lower\<close> is modelled on the ASCII
  letters; the only use in the program is the comparison of a lowered suffix with
  \<open>'.pdf'\<close>, and no character outside \<open>A-Z\<close> lowers to one of \<open>.\<close>, \<open>p\<close>, \<open>d\<close>, \<open>f\<close>.
\<close>

definition lower_char :: "char \<Rightarrow> char" where
  "lower_char c =
     (let n = (of_char c :: nat) in if 65 \<le> n \<and> n \<le> 90 then char_of (n + 32) else c)"

definition lower :: "string \<Rightarrow> string" where
  "lower s = map lower_char s"

text \<open>\<open>str(n)\<close> for a non-negative integer: its decimal digits.\<close>

definition digit_char :: "nat \<Rightarrow> char" where
  "digit_char d = char_of (48 + d)"

function str_nat :: "nat \<Rightarrow> string" where
  "str_nat n = (if n < 10 then [digit_char n] else str_nat (n div 10) @ [digit_char (n mod 10)])"
  by pat_completeness auto
termination
  by (relation "measure id") auto

declare str_nat.simps [simp del]

text \<open>The format specification \<open>:03d\<close>: decimal, padded on the left with zeros to width 3.\<close>

definition format_03d :: "nat \<Rightarrow> string" where
  "format_03d n = (let s = str_nat n in replicate (3 - length s) (CHR ''0'') @ s)"

text \<open>The number a string of decimal digits denotes (used to state that nothing is truncated).\<close>

definition decimal_value :: "string \<Rightarrow> nat" where
  "decimal_value s = foldl (\<lambda>a c. 10 * a + (of_char c - 48)) 0 s"

section \<open>Paths (\<open>pathlib.Path\<close> on POSIX)\<close>

text \<open>
  A path is pathlib's parsed form: the root (\<open>''\<close>, \<open>'/'\<close> or \<open>'//'\<close>) and the list of
  components, with empty components and \<open>'.'\<close> dropped by the parser.
\<close>

datatype path = PurePath (root: string) (tail: "string list")

text \<open>\<open>s.split('/')\<close>\<close>

fun split_sep :: "string \<Rightarrow> string list" where
  "split_sep [] = [[]]"
| "split_sep (c # cs) =
     (if c = CHR ''/'' then [] # split_sep cs
      else (case split_sep cs of [] \<Rightarrow> [[c]] | w # ws \<Rightarrow> (c # w) # ws))"

text \<open>\<open>'/'.join(xs)\<close>\<close>

fun join_sep :: "string list \<Rightarrow> string" where
  "join_sep [] = []"
| "join_sep [x] = x"
| "join_sep (x # y # ys) = x @ ''/'' @ join_sep (y # ys)"

text \<open>\<open>posixpath.splitroot\<close>: exactly two leading slashes are kept as a root of their own.\<close>

definition splitroot :: "string \<Rightarrow> string \<times> string" where
  "splitroot p =
     (if take 1 p \<noteq> ''/'' then ([], p)
      else if take 1 (drop 1 p) \<noteq> ''/'' \<or> take 1 (drop 2 p) = ''/'' then (''/'', drop 1 p)
      else (take 2 p, drop 2 p))"

text \<open>\<open>Path(s)\<close>\<close>

definition Path :: "string \<Rightarrow> path" where
  "Path s =
     (case splitroot s of
        (r, rel) \<Rightarrow> PurePath r (filter (\<lambda>x. x \<noteq> [] \<and> x \<noteq> ''.'') (split_sep rel)))"

text \<open>\<open>str(p)\<close>\<close>

definition str_path :: "path \<Rightarrow> string" where
  "str_path p =
     (if root p \<noteq> [] then root p @ join_sep (tail p)
      else if tail p = [] then ''.''
      else join_sep (tail p))"

text \<open>\<open>p.name\<close>: the final component, empty for the root and for \<open>'.'\<close>.\<close>

definition name :: "path \<Rightarrow> string" where
  "name p = (if tail p = [] then [] else last (tail p))"

text \<open>\<open>s.rfind(c)\<close>, with Python's \<open>-1\<close> for absence.\<close>

fun rfind :: "string \<Rightarrow> char \<Rightarrow> int" where
  "rfind [] c = - 1"
| "rfind (x # xs) c =
     (let r = rfind xs c in if 0 \<le> r then r + 1 else if x = c then 0 else - 1)"

text \<open>
  \<open>p.suffix\<close> and \<open>p.stem\<close>: the name is cut at its last dot, unless that dot is the first
  or the last character of the name (pathlib's rule up to Python 3.13; later versions
  differ only for names that start with several dots or end with a dot).
\<close>

definition suffix :: "path \<Rightarrow> string" where
  "suffix p =
     (let nm = name p; i = rfind nm (CHR ''.'')
      in if 0 < i \<and> i < int (length nm) - 1 then drop (nat i) nm else [])"

definition stem :: "path \<Rightarrow> string" where
  "stem p =
     (let nm = name p; i = rfind nm (CHR ''.'')
      in if 0 < i \<and> i < int (length nm) - 1 then take (nat i) nm else nm)"

text \<open>\<open>p.parent\<close>: a path without components is its own parent.\<close>

definition parent :: "path \<Rightarrow> path" where
  "parent p = (if tail p = [] then p else PurePath (root p) (butlast (tail p)))"

text \<open>\<open>p / s\<close>: an absolute right operand replaces the left one.\<close>

definition joinpath :: "path \<Rightarrow> string \<Rightarrow> path" where
  "joinpath p s =
     (let q = Path s in if root q \<noteq> [] then q else PurePath (root p) (tail p @ tail q))"

section \<open>The file system\<close>

text \<open>
  The store maps a parsed path to the node found there. The root and the current
  directory (the paths without components) always exist as directories. Components are
  plain names: the store has no symbolic links, and no permissions or quotas, so a
  system call fails only for the reasons written out below.
\<close>

datatype node = File string | Dir

type_synonym filesystem = "path \<rightharpoonup> node"

datatype error =
    FileNotFoundError string
  | ValueError string
  | FileExistsError string
  | NotADirectoryError string
  | IsADirectoryError string
  | LibraryError string

definition lookup :: "filesystem \<Rightarrow> path \<Rightarrow> node option" where
  "lookup fs p = (if tail p = [] then Some Dir else fs p)"

text \<open>\<open>p.exists()\<close> and \<open>p.is_dir()\<close>\<close>

definition exists :: "filesystem \<Rightarrow> path \<Rightarrow> bool" where
  "exists fs p = (lookup fs p \<noteq> None)"

definition is_dir :: "filesystem \<Rightarrow> path \<Rightarrow> bool" where
  "is_dir fs p = (lookup fs p = Some Dir)"

text \<open>\<open>os.mkdir(p)\<close>\<close>

definition os_mkdir :: "filesystem \<Rightarrow> path \<Rightarrow> error + filesystem" where
  "os_mkdir fs p =
     (case lookup fs p of
        Some _ \<Rightarrow> Inl (FileExistsError (str_path p))
      | None \<Rightarrow>
          (case lookup fs (parent p) of
             None \<Rightarrow> Inl (FileNotFoundError (str_path p))
           | Some (File _) \<Rightarrow> Inl (NotADirectoryError (str_path p))
           | Some Dir \<Rightarrow> Inr (fs(p \<mapsto> Dir))))"

text \<open>
  \<open>p.mkdir(parents=True, exist_ok=True)\<close>, as pathlib writes it: try \<open>os.mkdir\<close>; on
  \<open>FileNotFoundError\<close> create the parent first and try again (without \<open>parents\<close>); any
  other error is swallowed when the path is a directory.
\<close>

definition mkdir_exist_ok :: "filesystem \<Rightarrow> path \<Rightarrow> error + filesystem" where
  "mkdir_exist_ok fs p =
     (case os_mkdir fs p of
        Inr fs' \<Rightarrow> Inr fs'
      | Inl (FileNotFoundError m) \<Rightarrow> Inl (FileNotFoundError m)
      | Inl e \<Rightarrow> if is_dir fs p then Inr fs else Inl e)"

function mkdir :: "filesystem \<Rightarrow> path \<Rightarrow> error + filesystem" where
  "mkdir fs p =
     (case os_mkdir fs p of
        Inr fs' \<Rightarrow> Inr fs'
      | Inl (FileNotFoundError m) \<Rightarrow>
          if parent p = p then Inl (FileNotFoundError m)
          else (case mkdir fs (parent p) of
                  Inl e \<Rightarrow> Inl e
                | Inr fs' \<Rightarrow> mkdir_exist_ok fs' p)
      | Inl e \<Rightarrow> if is_dir fs p then Inr fs else Inl e)"
  by pat_completeness auto
termination
  by (relation "measure (\<lambda>(fs, p). length (tail p))")
     (auto simp: parent_def split: if_splits)

declare mkdir.simps [simp del]

text \<open>
  \<open>p.write_text(text, encoding='utf-8')\<close>: the file is opened for writing, which creates
  or truncates it, and the text becomes its content.
\<close>

definition write_text :: "filesystem \<Rightarrow> path \<Rightarrow> string \<Rightarrow> error + filesystem" where
  "write_text fs p text =
     (case lookup fs p of
        Some Dir \<Rightarrow> Inl (IsADirectoryError (str_path p))
      | _ \<Rightarrow>
          (case lookup fs (parent p) of
             None \<Rightarrow> Inl (FileNotFoundError (str_path p))
           | Some (File _) \<Rightarrow> Inl (NotADirectoryError (str_path p))
           | Some Dir \<Rightarrow> Inr (fs(p \<mapsto> File text))))"

section \<open>The external library and the observable world\<close>

text \<open>
  The two calls into the PDF library are parameters of the model. \<open>pymupdf_open\<close> stands
  for \<open>pymupdf.open(path)\<close>, \<open>len(doc)\<close> and \<open>doc.close()\<close>: it reads the file system and
  yields the page count or raises. \<open>to_markdown\<close> stands for
  \<open>pymupdf4llm.to_markdown(path, pages=[n], write_images=True, image_path=dir)\<close>: it
  yields the page's text or raises, and may change the file system either way (it writes
  the images it extracts).
\<close>

record library =
  pymupdf_open :: "string \<Rightarrow> filesystem \<Rightarrow> error + nat"
  to_markdown :: "string \<Rightarrow> nat \<Rightarrow> string \<Rightarrow> filesystem \<Rightarrow> (error + string) \<times> filesystem"

record world =
  fs :: filesystem
  stdout :: "string list"

definition print :: "string \<Rightarrow> world \<Rightarrow> world" where
  "print line w = w\<lparr>stdout := stdout w @ [line]\<rparr>"

section \<open>\<open>convert_pdf_to_markdown\<close>\<close>

text \<open>The local variables that are fixed when the loop starts.\<close>

record locals =
  pdf_path :: path
  output_dir :: path
  base_name :: string
  total_pages :: nat
  images_dir :: path

text \<open>Lines 57 to 61: the output directory is the PDF's parent, or is created.\<close>

definition resolve_output_dir :: "filesystem \<Rightarrow> path \<Rightarrow> string option \<Rightarrow> error + path \<times> filesystem" where
  "resolve_output_dir fs0 pdf output_dir_arg =
     (case output_dir_arg of
        None \<Rightarrow> Inr (parent pdf, fs0)
      | Some d \<Rightarrow>
          (case mkdir fs0 (Path d) of
             Inl e \<Rightarrow> Inl e
           | Inr fs1 \<Rightarrow> Inr (Path d, fs1)))"

text \<open>Lines 50 to 54: the two checks, in the order of the code.\<close>

definition validate :: "filesystem \<Rightarrow> path \<Rightarrow> error option" where
  "validate fs0 pdf =
     (if \<not> exists fs0 pdf then
        Some (FileNotFoundError (''PDF file not found: '' @ str_path pdf))
      else if \<not> lower (suffix pdf) = ''.pdf'' then
        Some (ValueError (''File does not appear to be a PDF: '' @ str_path pdf))
      else None)"

text \<open>Lines 56 to 78: directories, page count and the four header lines.\<close>

definition convert_setup :: "library \<Rightarrow> path \<Rightarrow> string option \<Rightarrow> world \<Rightarrow> (error + locals) \<times> world" where
  "convert_setup E pdf output_dir_arg w =
     (case resolve_output_dir (fs w) pdf output_dir_arg of
        Inl e \<Rightarrow> (Inl e, w)
      | Inr (out_dir, fs1) \<Rightarrow>
          (case pymupdf_open E (str_path pdf) fs1 of
             Inl e \<Rightarrow> (Inl e, w\<lparr>fs := fs1\<rparr>)
           | Inr n \<Rightarrow>
               (let img_dir = joinpath out_dir ''images'' in
                case mkdir fs1 img_dir of
                  Inl e \<Rightarrow> (Inl e, w\<lparr>fs := fs1\<rparr>)
                | Inr fs2 \<Rightarrow>
                    (Inr \<lparr>pdf_path = pdf, output_dir = out_dir, base_name = stem pdf,
                          total_pages = n, images_dir = img_dir\<rparr>,
                     print (''Images directory: '' @ str_path img_dir)
                       (print (''Output directory: '' @ str_path out_dir)
                         (print (''Total pages: '' @ str_nat n)
                           (print (''Converting: '' @ str_path pdf)
                             (w\<lparr>fs := fs2\<rparr>))))))))"

text \<open>Line 93: the file name of a page.\<close>

definition output_filename :: "string \<Rightarrow> nat \<Rightarrow> string" where
  "output_filename base page_num = base @ ''_page_'' @ format_03d (page_num + 1) @ ''.md''"

text \<open>Line 100: the progress line of a page.\<close>

definition progress_line :: "locals \<Rightarrow> nat \<Rightarrow> string" where
  "progress_line L page_num =
     ''  Page '' @ str_nat (page_num + 1) @ ''/'' @ str_nat (total_pages L) @ '' -> ''
       @ output_filename (base_name L) page_num"

text \<open>Lines 84 to 100: the body of the loop, for one page.\<close>

definition convert_page :: "library \<Rightarrow> locals \<Rightarrow> nat \<Rightarrow> world \<Rightarrow> (error + string) \<times> world" where
  "convert_page E L page_num w =
     (case to_markdown E (str_path (pdf_path L)) page_num (str_path (images_dir L)) (fs w) of
        (Inl e, fs1) \<Rightarrow> (Inl e, w\<lparr>fs := fs1\<rparr>)
      | (Inr markdown_text, fs1) \<Rightarrow>
          (let output_path = joinpath (output_dir L) (output_filename (base_name L) page_num) in
           case write_text fs1 output_path markdown_text of
             Inl e \<Rightarrow> (Inl e, w\<lparr>fs := fs1\<rparr>)
           | Inr fs2 \<Rightarrow>
               (Inr (str_path output_path), print (progress_line L page_num) (w\<lparr>fs := fs2\<rparr>))))"

text \<open>
  Line 83: the loop over \<open>range(total_pages)\<close>, with the list \<open>output_files\<close> as
  accumulator. An exception leaves the loop with the world as it is at that moment.
\<close>

fun convert_loop :: "library \<Rightarrow> locals \<Rightarrow> nat list \<Rightarrow> string list \<Rightarrow> world \<Rightarrow> (error + string list) \<times> world" where
  "convert_loop E L [] output_files w = (Inr output_files, w)"
| "convert_loop E L (page_num # rest) output_files w =
     (case convert_page E L page_num w of
        (Inl e, w') \<Rightarrow> (Inl e, w')
      | (Inr p, w') \<Rightarrow> convert_loop E L rest (output_files @ [p]) w')"

text \<open>Lines 56 to 103: everything after the two checks.\<close>

definition convert_validated :: "library \<Rightarrow> path \<Rightarrow> string option \<Rightarrow> world \<Rightarrow> (error + string list) \<times> world" where
  "convert_validated E pdf output_dir_arg w =
     (case convert_setup E pdf output_dir_arg w of
        (Inl e, w') \<Rightarrow> (Inl e, w')
      | (Inr L, w') \<Rightarrow>
          (case convert_loop E L [0..<total_pages L] [] w' of
             (Inl e, w'') \<Rightarrow> (Inl e, w'')
           | (Inr output_files, w'') \<Rightarrow>
               (Inr output_files,
                print (''Successfully converted '' @ str_nat (total_pages L) @ '' pages.'') w'')))"

text \<open>
  The function: the result is the exception raised or the list returned, together with
  the world as the call leaves it.
\<close>

definition convert_pdf_to_markdown :: "library \<Rightarrow> string \<Rightarrow> string option \<Rightarrow> world \<Rightarrow> (error + string list) \<times> world" where
  "convert_pdf_to_markdown E pdf_path_arg output_dir_arg w =
     (let pdf = Path pdf_path_arg in
      case validate (fs w) pdf of
        Some e \<Rightarrow> (Inl e, w)
      | None \<Rightarrow> convert_validated E pdf output_dir_arg w)"

section \<open>Notions for stating the properties\<close>

text \<open>The path of a page's file (line 94) and the output directory (lines 57 to 60).\<close>

definition page_path :: "locals \<Rightarrow> nat \<Rightarrow> path" where
  "page_path L i = joinpath (output_dir L) (output_filename (base_name L) i)"

definition out_dir_of :: "path \<Rightarrow> string option \<Rightarrow> path" where
  "out_dir_of pdf output_dir_arg = (case output_dir_arg of None \<Rightarrow> parent pdf | Some d \<Rightarrow> Path d)"

text \<open>The page count that the library reports in a run (line 68), if the run gets there.\<close>

definition reported_pages :: "library \<Rightarrow> string \<Rightarrow> string option \<Rightarrow> world \<Rightarrow> nat option" where
  "reported_pages E s od w =
     (case resolve_output_dir (fs w) (Path s) od of
        Inl e \<Rightarrow> None
      | Inr (out, fs1) \<Rightarrow>
          (case pymupdf_open E (str_path (Path s)) fs1 of
             Inl e \<Rightarrow> None
           | Inr n \<Rightarrow> Some n))"

text \<open>The file name and the path of page \<open>i\<close> (counted from 0), from the arguments alone.\<close>

definition page_name :: "string \<Rightarrow> nat \<Rightarrow> string" where
  "page_name s i = stem (Path s) @ ''_page_'' @ format_03d (i + 1) @ ''.md''"

definition page_file :: "string \<Rightarrow> string option \<Rightarrow> nat \<Rightarrow> path" where
  "page_file s od i =
     PurePath (root (out_dir_of (Path s) od)) (tail (out_dir_of (Path s) od) @ [page_name s i])"

text \<open>The lines printed before the loop (lines 75 to 78) and for a page (line 100).\<close>

definition header_lines :: "string \<Rightarrow> string option \<Rightarrow> nat \<Rightarrow> string list" where
  "header_lines s od n =
     [''Converting: '' @ str_path (Path s),
      ''Total pages: '' @ str_nat n,
      ''Output directory: '' @ str_path (out_dir_of (Path s) od),
      ''Images directory: '' @ str_path (joinpath (out_dir_of (Path s) od) ''images'')]"

definition page_line :: "string \<Rightarrow> nat \<Rightarrow> nat \<Rightarrow> string" where
  "page_line s n i = ''  Page '' @ str_nat (i + 1) @ ''/'' @ str_nat n @ '' -> '' @ page_name s i"

text \<open>
  \<open>p.is_file()\<close>, the paths from the root (or the current directory) down to a path, and
  the condition under which \<open>mkdir\<close> with \<open>parents\<close> gets through: no regular file on
  the way.
\<close>

definition is_file :: "filesystem \<Rightarrow> path \<Rightarrow> bool" where
  "is_file fs0 p = (case lookup fs0 p of Some (File _) \<Rightarrow> True | _ \<Rightarrow> False)"




definition after_render :: "library \<Rightarrow> locals \<Rightarrow> nat \<Rightarrow> filesystem \<Rightarrow> filesystem" where
  "after_render E L i fs0 =
     snd (to_markdown E (str_path (pdf_path L)) i (str_path (images_dir L)) fs0)"

text \<open>
  A path lies below a directory when the directory's components are a proper prefix of
  its own.
\<close>

definition below :: "path \<Rightarrow> path \<Rightarrow> bool" where
  "below d q =
     (root q = root d \<and> length (tail d) < length (tail q) \<and>
      take (length (tail d)) (tail q) = tail d)"

text \<open>
  An assumption on the library, used to state what a run leaves in place: rendering a page
  of this document with this images directory never raises, and changes the file system
  below the images directory only.
\<close>

definition library_confined :: "library \<Rightarrow> string \<Rightarrow> path \<Rightarrow> bool" where
  "library_confined E src img \<longleftrightarrow>
     (\<forall>n fs0. (\<exists>t. fst (to_markdown E src n (str_path img) fs0) = Inr t) \<and>
              (\<forall>q. \<not> below img q \<longrightarrow> snd (to_markdown E src n (str_path img) fs0) q = fs0 q))"

section \<open>Sample data\<close>

text \<open>
  A small world and a library to run the program on: a directory \<open>doc\<close> with a PDF, a
  text file, a file named \<open>.pdf\<close> and a directory named \<open>scans.pdf\<close>. The library opens
  regular files only and reports \<open>n\<close> pages; it renders a line of text per page and
  writes one image into the images directory, except for the page \<open>bad\<close>, if any, where
  it raises.
\<close>

definition sample_fs :: filesystem where
  "sample_fs =
     [PurePath [] [''doc''] \<mapsto> Dir,
      PurePath [] [''doc'', ''Report.PDF''] \<mapsto> File ''%PDF-1.7'',
      PurePath [] [''doc'', ''report.txt''] \<mapsto> File ''%PDF-1.7'',
      PurePath [] [''doc'', ''.pdf''] \<mapsto> File ''%PDF-1.7'',
      PurePath [] [''doc'', ''scans.pdf''] \<mapsto> Dir]"

definition sample_world :: world where
  "sample_world = \<lparr>fs = sample_fs, stdout = []\<rparr>"

definition sample_library :: "nat \<Rightarrow> nat option \<Rightarrow> library" where
  "sample_library n bad =
     \<lparr>pymupdf_open = (\<lambda>p fs0. case lookup fs0 (Path p) of
                          Some (File _) \<Rightarrow> Inr n
                        | _ \<Rightarrow> Inl (LibraryError (''cannot open '' @ p))),
      to_markdown = (\<lambda>p i img fs0.
                       if bad = Some i then (Inl (LibraryError ''cannot render''), fs0)
                       else (Inr (''# page '' @ str_nat (i + 1)),
                             fs0(joinpath (Path img) (''img_'' @ str_nat i @ ''.png'') \<mapsto> File ''png'')))\<rparr>"




text \<open>The sample world with a directory where the file of the second page would go.\<close>

definition blocked_world :: world where
  "blocked_world =
     sample_world\<lparr>fs := (fs sample_world)(PurePath [] [''doc'', ''Report_page_002.md''] \<mapsto> Dir)\<rparr>"

section \<open>Facts about formatting and paths\<close>

lemma digit_char_value: "d < 10 \<Longrightarrow> (of_char (digit_char d) :: nat) = 48 + d"
  by (simp add: digit_char_def)

lemma decimal_value_snoc: "decimal_value (s @ [c]) = 10 * decimal_value s + (of_char c - 48)"
  by (simp add: decimal_value_def)

lemma decimal_value_str_nat: "decimal_value (str_nat n) = n"
proof (induction n rule: str_nat.induct)
  case (1 n)
  show ?case
  proof (cases "n < 10")
    case True
    then show ?thesis
      by (subst str_nat.simps) (simp add: decimal_value_def digit_char_value)
  next
    case False
    then have "decimal_value (str_nat (n div 10)) = n div 10" using 1 by simp
    with False show ?thesis
      by (subst str_nat.simps) (simp add: decimal_value_snoc digit_char_value)
  qed
qed

lemma decimal_value_zeros: "decimal_value (replicate k (CHR ''0'') @ s) = decimal_value s"
proof -
  have "foldl (\<lambda>a c. 10 * a + (of_char c - 48)) 0 (replicate k (CHR ''0'')) = (0::nat)"
    by (induction k) simp_all
  then show ?thesis by (simp add: decimal_value_def)
qed

lemma decimal_value_format_03d: "decimal_value (format_03d n) = n"
  by (simp add: format_03d_def Let_def decimal_value_zeros decimal_value_str_nat)

lemma format_03d_inj: "format_03d m = format_03d n \<Longrightarrow> m = n"
  by (metis decimal_value_format_03d)

lemma length_format_03d: "length (format_03d n) = max 3 (length (str_nat n))"
  by (simp add: format_03d_def Let_def)

lemma length_str_nat_pos: "0 < length (str_nat n)"
  by (subst str_nat.simps) simp

lemma str_nat_ge_100: "100 \<le> n \<Longrightarrow> 3 \<le> length (str_nat n)"
proof -
  assume h: "100 \<le> n"
  have a: "str_nat n = str_nat (n div 10) @ [digit_char (n mod 10)]"
    using h str_nat.simps [of n] by simp
  have "\<not> n div 10 < 10" using h by arith
  then have b: "str_nat (n div 10) = str_nat (n div 10 div 10) @ [digit_char (n div 10 mod 10)]"
    using str_nat.simps [of "n div 10"] by simp
  have "str_nat (n div 10 div 10) \<noteq> []"
    using length_str_nat_pos [of "n div 10 div 10"] by simp
  then show ?thesis unfolding a b by (cases "str_nat (n div 10 div 10)") simp_all
qed

lemma format_03d_wide: "100 \<le> n \<Longrightarrow> format_03d n = str_nat n"
  using str_nat_ge_100 [of n] by (simp add: format_03d_def Let_def)

lemma digit_char_not_sep: "d < 10 \<Longrightarrow> digit_char d \<noteq> CHR ''/''"
proof
  assume "d < 10" and "digit_char d = CHR ''/''"
  then have "(of_char (digit_char d) :: nat) = of_char (CHR ''/'')" by simp
  with \<open>d < 10\<close> show False by (simp add: digit_char_value)
qed

lemma str_nat_no_sep: "CHR ''/'' \<notin> set (str_nat n)"
proof (induction n rule: str_nat.induct)
  case (1 n)
  show ?case
  proof (cases "n < 10")
    case True
    then show ?thesis using digit_char_not_sep [of n]
      by (subst str_nat.simps) auto
  next
    case False
    then have "CHR ''/'' \<notin> set (str_nat (n div 10))" using 1 by simp
    moreover have "digit_char (n mod 10) \<noteq> CHR ''/''" by (rule digit_char_not_sep) simp
    ultimately show ?thesis using False
      by (subst str_nat.simps) auto
  qed
qed

lemma format_03d_no_sep: "CHR ''/'' \<notin> set (format_03d n)"
  using str_nat_no_sep [of n] by (auto simp: format_03d_def Let_def)

lemma split_sep_nonempty: "split_sep s \<noteq> []"
  by (induction s) (auto split: list.splits)

lemma split_sep_no_sep: "w \<in> set (split_sep s) \<Longrightarrow> CHR ''/'' \<notin> set w"
proof (induction s arbitrary: w)
  case Nil
  then show ?case by simp
next
  case (Cons c cs)
  then show ?case
    by (cases "split_sep cs") (auto split: if_splits)
qed

lemma split_sep_plain: "CHR ''/'' \<notin> set s \<Longrightarrow> split_sep s = [s]"
  by (induction s) auto

lemma Path_tail_no_sep: "x \<in> set (tail (Path s)) \<Longrightarrow> CHR ''/'' \<notin> set x"
  by (auto simp: Path_def split: prod.splits dest: split_sep_no_sep)

lemma Path_plain:
  assumes "CHR ''/'' \<notin> set s" "s \<noteq> []" "s \<noteq> ''.''"
  shows "Path s = PurePath [] [s]"
proof -
  have "take 1 s \<noteq> ''/''" using assms by (cases s) auto
  then have "splitroot s = ([], s)" by (simp add: splitroot_def)
  then show ?thesis using assms by (simp add: Path_def split_sep_plain)
qed

lemma name_no_sep: "CHR ''/'' \<notin> set (name (Path s))"
  using Path_tail_no_sep [of "last (tail (Path s))" s] by (auto simp: name_def)

lemma stem_no_sep: "CHR ''/'' \<notin> set (stem (Path s))"
  using name_no_sep [of s] by (auto simp: stem_def Let_def dest: in_set_takeD)

lemma output_filename_no_sep:
  "CHR ''/'' \<notin> set base \<Longrightarrow> CHR ''/'' \<notin> set (output_filename base i)"
  using format_03d_no_sep [of "i + 1"] by (auto simp: output_filename_def)

lemma output_filename_inj: "output_filename base i = output_filename base j \<Longrightarrow> i = j"
  using format_03d_inj [of "i + 1" "j + 1"] by (simp add: output_filename_def)

lemma output_filename_not_trivial:
  "output_filename base i \<noteq> [] \<and> output_filename base i \<noteq> ''.''"
proof -
  have "length (output_filename base i) \<ge> 2" by (simp add: output_filename_def)
  then show ?thesis by auto
qed

lemma joinpath_plain:
  assumes "CHR ''/'' \<notin> set s" "s \<noteq> []" "s \<noteq> ''.''"
  shows "joinpath p s = PurePath (root p) (tail p @ [s])"
  using Path_plain [OF assms] by (simp add: joinpath_def)

lemma joinpath_output_filename:
  "CHR ''/'' \<notin> set base \<Longrightarrow>
   joinpath p (output_filename base i) = PurePath (root p) (tail p @ [output_filename base i])"
  using output_filename_not_trivial [of base i]
  by (intro joinpath_plain output_filename_no_sep) auto

lemma joinpath_images: "joinpath p ''images'' = PurePath (root p) (tail p @ [''images''])"
  by (rule joinpath_plain) auto

lemma join_sep_snoc:
  "join_sep (xs @ [a]) = (if xs = [] then a else join_sep xs @ ''/'' @ a)"
  by (induction xs rule: join_sep.induct) auto

lemma str_path_snoc_inj:
  "str_path (PurePath r (xs @ [a])) = str_path (PurePath r (xs @ [b])) \<Longrightarrow> a = b"
  by (auto simp: str_path_def join_sep_snoc split: if_splits)

section \<open>Facts about the loop and the set-up\<close>

lemma convert_page_Inr:
  "convert_page E L i w = (Inr p, w') \<Longrightarrow>
     p = str_path (page_path L i) \<and> stdout w' = stdout w @ [progress_line L i]"
  by (auto simp: convert_page_def page_path_def print_def Let_def
           split: prod.splits sum.splits)

lemma convert_page_Inl: "convert_page E L i w = (Inl e, w') \<Longrightarrow> stdout w' = stdout w"
  by (auto simp: convert_page_def Let_def split: prod.splits sum.splits)

lemma convert_loop_Inr:
  "convert_loop E L ps acc w = (Inr files, w') \<Longrightarrow>
     files = acc @ map (\<lambda>i. str_path (page_path L i)) ps \<and>
     stdout w' = stdout w @ map (progress_line L) ps"
proof (induction ps arbitrary: acc w)
  case Nil
  then show ?case by simp
next
  case (Cons i ps)
  obtain r w1 where step: "convert_page E L i w = (r, w1)" by (cases "convert_page E L i w")
  show ?case
  proof (cases r)
    case (Inl e)
    with Cons.prems step show ?thesis by simp
  next
    case (Inr p)
    with Cons.prems step have "convert_loop E L ps (acc @ [p]) w1 = (Inr files, w')" by simp
    from Cons.IH [OF this] convert_page_Inr [OF step [unfolded Inr]]
    show ?thesis by simp
  qed
qed


lemma resolve_output_dir_Inr:
  "resolve_output_dir fs0 pdf od = Inr (out, fs1) \<Longrightarrow> out = out_dir_of pdf od"
  by (auto simp: resolve_output_dir_def out_dir_of_def split: option.splits sum.splits)

lemma convert_setup_Inr:
  assumes "convert_setup E pdf od w = (Inr L, w')"
  shows "pdf_path L = pdf \<and> output_dir L = out_dir_of pdf od \<and> base_name L = stem pdf \<and>
         images_dir L = joinpath (out_dir_of pdf od) ''images'' \<and>
         (\<exists>fs1. resolve_output_dir (fs w) pdf od = Inr (out_dir_of pdf od, fs1) \<and>
                pymupdf_open E (str_path pdf) fs1 = Inr (total_pages L) \<and>
                mkdir fs1 (joinpath (out_dir_of pdf od) ''images'') = Inr (fs w')) \<and>
         stdout w' = stdout w @
           [''Converting: '' @ str_path pdf, ''Total pages: '' @ str_nat (total_pages L),
            ''Output directory: '' @ str_path (out_dir_of pdf od),
            ''Images directory: '' @ str_path (joinpath (out_dir_of pdf od) ''images'')]"
proof -
  obtain out fs1 where r: "resolve_output_dir (fs w) pdf od = Inr (out, fs1)"
    using assms by (auto simp: convert_setup_def split: sum.splits)
  then have out: "out = out_dir_of pdf od" by (rule resolve_output_dir_Inr)
  obtain n where n: "pymupdf_open E (str_path pdf) fs1 = Inr n"
    using assms r by (auto simp: convert_setup_def split: sum.splits)
  obtain fs2 where m: "mkdir fs1 (joinpath out ''images'') = Inr fs2"
    using assms r n by (auto simp: convert_setup_def Let_def split: sum.splits)
  from assms r n m show ?thesis
    unfolding out by (auto simp: convert_setup_def Let_def print_def)
qed

section \<open>Facts about the two checks\<close>

lemma of_char_lower_char:
  "(of_char (lower_char c) :: nat) =
     (if 65 \<le> (of_char c :: nat) \<and> (of_char c :: nat) \<le> 90 then of_char c + 32 else of_char c)"
  by (simp add: lower_char_def Let_def)

lemma char_eq_nat: "c = d \<longleftrightarrow> (of_char c :: nat) = of_char d"
  by simp

lemma lower_char_p: "lower_char c = CHR ''p'' \<longleftrightarrow> c = CHR ''p'' \<or> c = CHR ''P''"
  unfolding char_eq_nat [of _ "CHR ''p''"] char_eq_nat [of _ "CHR ''P''"] of_char_lower_char
  by auto

lemma lower_char_d: "lower_char c = CHR ''d'' \<longleftrightarrow> c = CHR ''d'' \<or> c = CHR ''D''"
  unfolding char_eq_nat [of _ "CHR ''d''"] char_eq_nat [of _ "CHR ''D''"] of_char_lower_char
  by auto

lemma lower_char_f: "lower_char c = CHR ''f'' \<longleftrightarrow> c = CHR ''f'' \<or> c = CHR ''F''"
  unfolding char_eq_nat [of _ "CHR ''f''"] char_eq_nat [of _ "CHR ''F''"] of_char_lower_char
  by auto

lemma lower_char_dot: "lower_char c = CHR ''.'' \<longleftrightarrow> c = CHR ''.''"
  unfolding char_eq_nat [of _ "CHR ''.''"] of_char_lower_char
  by auto

lemma lower_eq_pdf:
  "lower x = ''.pdf'' \<longleftrightarrow>
     (\<exists>a b c. x = [CHR ''.'', a, b, c] \<and> a \<in> {CHR ''p'', CHR ''P''} \<and>
              b \<in> {CHR ''d'', CHR ''D''} \<and> c \<in> {CHR ''f'', CHR ''F''})"
  by (auto simp: lower_def lower_char_p lower_char_d lower_char_f lower_char_dot
      map_eq_Cons_conv)

lemma validate_None: "validate fs0 p = None \<longleftrightarrow> exists fs0 p \<and> lower (suffix p) = ''.pdf''"
  by (simp add: validate_def)


lemma convert_not_pdf:
  "exists (fs w) (Path s) \<Longrightarrow> lower (suffix (Path s)) \<noteq> ''.pdf'' \<Longrightarrow>
   convert_pdf_to_markdown E s od w =
     (Inl (ValueError (''File does not appear to be a PDF: '' @ str_path (Path s))), w)"
  by (simp add: convert_pdf_to_markdown_def validate_def)

lemma convert_valid:
  "exists (fs w) (Path s) \<Longrightarrow> lower (suffix (Path s)) = ''.pdf'' \<Longrightarrow>
   convert_pdf_to_markdown E s od w = convert_validated E (Path s) od w"
  by (simp add: convert_pdf_to_markdown_def validate_def)

lemma sample_paths:
  "Path ''doc/missing.pdf'' = PurePath [] [''doc'', ''missing.pdf'']"
  "Path ''doc/report.txt'' = PurePath [] [''doc'', ''report.txt'']"
  "Path ''doc/Report.PDF'' = PurePath [] [''doc'', ''Report.PDF'']"
  "Path ''doc/.pdf'' = PurePath [] [''doc'', ''.pdf'']"
  "Path ''doc/scans.pdf'' = PurePath [] [''doc'', ''scans.pdf'']"
  "Path ''out'' = PurePath [] [''out'']"
  by (simp_all add: Path_def splitroot_def)

section \<open>Facts about a call that returns, and about what is printed\<close>

lemma convert_validated_Inr:
  assumes "convert_validated E pdf od w = (Inr files, w')"
  shows "\<exists>L w0 w1. convert_setup E pdf od w = (Inr L, w0) \<and>
           convert_loop E L [0..<total_pages L] [] w0 = (Inr files, w1) \<and>
           w' = print (''Successfully converted '' @ str_nat (total_pages L) @ '' pages.'') w1"
  using assms by (auto simp: convert_validated_def split: prod.splits sum.splits)

lemma convert_Inr:
  assumes "convert_pdf_to_markdown E s od w = (Inr files, w')"
  shows "validate (fs w) (Path s) = None \<and> convert_validated E (Path s) od w = (Inr files, w')"
  using assms by (auto simp: convert_pdf_to_markdown_def Let_def split: option.splits)

lemma page_path_setup:
  assumes "convert_setup E (Path s) od w = (Inr L, w0)"
  shows "page_path L i = page_file s od i"
proof -
  from convert_setup_Inr [OF assms]
  have "output_dir L = out_dir_of (Path s) od" "base_name L = stem (Path s)" by simp_all
  then show ?thesis
    using joinpath_output_filename [of "stem (Path s)" "out_dir_of (Path s) od" i]
      stem_no_sep [of s]
    by (simp add: page_path_def page_file_def page_name_def output_filename_def)
qed

lemma reported_pages_setup:
  assumes "convert_setup E (Path s) od w = (Inr L, w0)"
  shows "reported_pages E s od w = Some (total_pages L)"
  using convert_setup_Inr [OF assms] by (auto simp: reported_pages_def)

lemma page_name_inj: "page_name s i = page_name s j \<Longrightarrow> i = j"
  using format_03d_inj [of "i + 1" "j + 1"] by (simp add: page_name_def)

lemma str_page_file_inj: "str_path (page_file s od i) = str_path (page_file s od j) \<Longrightarrow> i = j"
  unfolding page_file_def by (blast dest: str_path_snoc_inj page_name_inj)

lemma convert_files:
  assumes "convert_pdf_to_markdown E s od w = (Inr files, w')"
  shows "\<exists>N. reported_pages E s od w = Some N \<and>
             files = map (\<lambda>i. str_path (page_file s od i)) [0..<N]"
proof -
  from convert_Inr [OF assms] convert_validated_Inr
  obtain L w0 w1 where su: "convert_setup E (Path s) od w = (Inr L, w0)"
    and loop: "convert_loop E L [0..<total_pages L] [] w0 = (Inr files, w1)"
    by blast
  from convert_loop_Inr [OF loop] page_path_setup [OF su]
  have "files = map (\<lambda>i. str_path (page_file s od i)) [0..<total_pages L]" by simp
  with reported_pages_setup [OF su] show ?thesis by blast
qed

lemma progress_line_setup:
  assumes "convert_setup E (Path s) od w = (Inr L, w0)"
  shows "progress_line L i = page_line s (total_pages L) i"
  using convert_setup_Inr [OF assms]
  by (simp add: progress_line_def page_line_def page_name_def output_filename_def)

lemma stdout_setup:
  assumes "convert_setup E (Path s) od w = (Inr L, w0)"
  shows "stdout w0 = stdout w @ header_lines s od (total_pages L)"
  using convert_setup_Inr [OF assms] by (simp add: header_lines_def)

lemma convert_setup_Inl: "convert_setup E pdf od w = (Inl e, w') \<Longrightarrow> stdout w' = stdout w"
  by (auto simp: convert_setup_def Let_def split: sum.splits prod.splits)

lemma convert_loop_Inl:
  "convert_loop E L ps acc w = (Inl e, w') \<Longrightarrow>
     \<exists>k < length ps. stdout w' = stdout w @ map (progress_line L) (take k ps)"
proof (induction ps arbitrary: acc w)
  case Nil
  then show ?case by simp
next
  case (Cons i ps)
  obtain r w1 where step: "convert_page E L i w = (r, w1)" by (cases "convert_page E L i w")
  show ?case
  proof (cases r)
    case (Inl e')
    with Cons.prems step have "w' = w1" by simp
    with convert_page_Inl [OF step [unfolded Inl]] have "stdout w' = stdout w" by simp
    then have "stdout w' = stdout w @ map (progress_line L) (take 0 (i # ps))" by simp
    then show ?thesis by blast
  next
    case (Inr p)
    with Cons.prems step have "convert_loop E L ps (acc @ [p]) w1 = (Inl e, w')" by simp
    from Cons.IH [OF this] obtain k where k: "k < length ps"
      and out: "stdout w' = stdout w1 @ map (progress_line L) (take k ps)" by blast
    from out convert_page_Inr [OF step [unfolded Inr]]
    have "stdout w' = stdout w @ map (progress_line L) (take (Suc k) (i # ps))" by simp
    with k show ?thesis by (intro exI [of _ "Suc k"]) simp
  qed
qed

lemma convert_validated_Inl:
  assumes "convert_validated E pdf od w = (Inl e, w')"
  shows "convert_setup E pdf od w = (Inl e, w') \<or>
         (\<exists>L w0. convert_setup E pdf od w = (Inr L, w0) \<and>
                 convert_loop E L [0..<total_pages L] [] w0 = (Inl e, w'))"
  using assms by (auto simp: convert_validated_def split: prod.splits sum.splits)

lemma validate_Some_convert:
  "validate (fs w) (Path s) = Some e \<Longrightarrow> convert_pdf_to_markdown E s od w = (Inl e, w)"
  by (simp add: convert_pdf_to_markdown_def)

lemma validate_None_convert:
  "validate (fs w) (Path s) = None \<Longrightarrow>
   convert_pdf_to_markdown E s od w = convert_validated E (Path s) od w"
  by (simp add: convert_pdf_to_markdown_def)

lemma stdout_success:
  assumes "convert_pdf_to_markdown E s od w = (Inr files, w')"
  shows "stdout w' = stdout w @ header_lines s od (length files) @
           map (page_line s (length files)) [0..<length files] @
           [''Successfully converted '' @ str_nat (length files) @ '' pages.'']"
proof -
  from convert_Inr [OF assms] convert_validated_Inr
  obtain L w0 w1 where su: "convert_setup E (Path s) od w = (Inr L, w0)"
    and loop: "convert_loop E L [0..<total_pages L] [] w0 = (Inr files, w1)"
    and fin: "w' = print (''Successfully converted '' @ str_nat (total_pages L) @ '' pages.'') w1"
    by blast
  from convert_loop_Inr [OF loop] have len: "length files = total_pages L"
    and out: "stdout w1 = stdout w0 @ map (progress_line L) [0..<total_pages L]" by simp_all
  show ?thesis
    using fin out len stdout_setup [OF su] progress_line_setup [OF su]
    by (simp add: print_def)
qed

lemma stdout_failure:
  assumes "convert_pdf_to_markdown E s od w = (Inl e, w')"
  shows "stdout w' = stdout w \<or>
         (\<exists>n k. reported_pages E s od w = Some n \<and> k < n \<and>
                stdout w' = stdout w @ header_lines s od n @ map (page_line s n) [0..<k])"
proof (cases "validate (fs w) (Path s)")
  case (Some e')
  from validate_Some_convert [OF this, of E od] assms show ?thesis by simp
next
  case None
  from validate_None_convert [OF this, of E od] assms
  have v: "convert_validated E (Path s) od w = (Inl e, w')" by simp
  from convert_validated_Inl [OF v] show ?thesis
  proof
    assume "convert_setup E (Path s) od w = (Inl e, w')"
    then show ?thesis by (simp add: convert_setup_Inl)
  next
    assume "\<exists>L w0. convert_setup E (Path s) od w = (Inr L, w0) \<and>
                    convert_loop E L [0..<total_pages L] [] w0 = (Inl e, w')"
    then obtain L w0 where su: "convert_setup E (Path s) od w = (Inr L, w0)"
      and loop: "convert_loop E L [0..<total_pages L] [] w0 = (Inl e, w')" by blast
    from convert_loop_Inl [OF loop] obtain k where k: "k < total_pages L"
      and out: "stdout w' = stdout w0 @ map (progress_line L) (take k [0..<total_pages L])"
      by auto
    have "take k [0..<total_pages L] = [0..<k]" using k by (simp add: take_upt)
    with out stdout_setup [OF su] progress_line_setup [OF su]
    have "stdout w' = stdout w @ header_lines s od (total_pages L) @
            map (page_line s (total_pages L)) [0..<k]" by simp
    with k reported_pages_setup [OF su] show ?thesis by blast
  qed
qed


section \<open>Facts about the file system\<close>

lemma os_mkdir_Inr:
  "os_mkdir fs0 p = Inr fs1 \<Longrightarrow>
     fs1 = fs0(p \<mapsto> Dir) \<and> lookup fs0 p = None \<and> is_dir fs0 (parent p)"
  by (auto simp: os_mkdir_def is_dir_def split: option.splits node.splits)

lemma lookup_None_tail: "lookup fs0 p = None \<Longrightarrow> tail p \<noteq> [] \<and> fs0 p = None"
  by (auto simp: lookup_def split: if_splits)

lemma is_dir_upd: "is_dir (fs0(p \<mapsto> Dir)) p"
  by (simp add: is_dir_def lookup_def)

lemma os_mkdir_frame:
  "os_mkdir fs0 p = Inr fs1 \<Longrightarrow> fs1 q = fs0 q \<or> (fs0 q = None \<and> fs1 q = Some Dir)"
proof -
  assume "os_mkdir fs0 p = Inr fs1"
  from os_mkdir_Inr [OF this] have "fs1 = fs0(p \<mapsto> Dir)" and "lookup fs0 p = None" by simp_all
  with lookup_None_tail [of fs0 p] show ?thesis by (cases "q = p") simp_all
qed

lemma mkdir_exist_ok_Inr:
  assumes "mkdir_exist_ok fs0 p = Inr fs1"
  shows "is_dir fs1 p" and "fs1 q = fs0 q \<or> (fs0 q = None \<and> fs1 q = Some Dir)"
proof -
  show "is_dir fs1 p"
  proof (cases "os_mkdir fs0 p")
    case (Inr fs2)
    with assms have "fs1 = fs2" by (simp add: mkdir_exist_ok_def)
    with os_mkdir_Inr [OF Inr] show ?thesis by (simp add: is_dir_upd)
  next
    case (Inl e)
    with assms show ?thesis
      by (cases e) (auto simp: mkdir_exist_ok_def split: if_splits)
  qed
  show "fs1 q = fs0 q \<or> (fs0 q = None \<and> fs1 q = Some Dir)"
  proof (cases "os_mkdir fs0 p")
    case (Inr fs2)
    with assms have "fs1 = fs2" by (simp add: mkdir_exist_ok_def)
    with os_mkdir_frame [OF Inr] show ?thesis by simp
  next
    case (Inl e)
    with assms show ?thesis
      by (cases e) (auto simp: mkdir_exist_ok_def split: if_splits)
  qed
qed

lemma mkdir_Inr:
  "mkdir fs0 p = Inr fs1 \<Longrightarrow>
     is_dir fs1 p \<and> (\<forall>q. fs1 q = fs0 q \<or> (fs0 q = None \<and> fs1 q = Some Dir))"
proof (induction fs0 p arbitrary: fs1 rule: mkdir.induct)
  case (1 fs0 p)
  show ?case
  proof (cases "os_mkdir fs0 p")
    case (Inr fs2)
    with "1.prems" have "fs1 = fs2" by (simp add: mkdir.simps [of fs0 p])
    with os_mkdir_Inr [OF Inr] have "is_dir fs1 p" using is_dir_upd [of fs0 p] by simp
    with os_mkdir_frame [OF Inr] \<open>fs1 = fs2\<close> show ?thesis by blast
  next
    case (Inl e)
    show ?thesis
    proof (cases "\<exists>m. e = FileNotFoundError m")
      case False
      with Inl "1.prems" show ?thesis
        by (cases e) (auto simp: mkdir.simps [of fs0 p] split: if_splits)
    next
      case True
      then obtain m where e: "e = FileNotFoundError m" by blast
      with Inl "1.prems" have np: "parent p \<noteq> p"
        by (auto simp: mkdir.simps [of fs0 p] split: if_splits)
      with Inl e "1.prems" obtain fs2 where par: "mkdir fs0 (parent p) = Inr fs2"
        and rest: "mkdir_exist_ok fs2 p = Inr fs1"
        by (auto simp: mkdir.simps [of fs0 p] split: sum.splits)
      from "1.IH" [OF Inl e np par]
      have f2: "\<And>q. fs2 q = fs0 q \<or> (fs0 q = None \<and> fs2 q = Some Dir)" by blast
      from mkdir_exist_ok_Inr [OF rest]
      have d: "is_dir fs1 p" and f1: "\<And>q. fs1 q = fs2 q \<or> (fs2 q = None \<and> fs1 q = Some Dir)"
        by blast+
      show ?thesis
      proof (intro conjI allI)
        show "is_dir fs1 p" by (rule d)
        fix q
        from f1 [of q] f2 [of q]
        show "fs1 q = fs0 q \<or> (fs0 q = None \<and> fs1 q = Some Dir)" by auto
      qed
    qed
  qed
qed

lemma mkdir_existing: "is_dir fs0 p \<Longrightarrow> mkdir fs0 p = Inr fs0"
  by (simp add: mkdir.simps [of fs0 p] os_mkdir_def is_dir_def)

lemma mkdir_idem: "mkdir fs0 p = Inr fs1 \<Longrightarrow> mkdir fs1 p = Inr fs1"
  by (blast dest: mkdir_Inr intro: mkdir_existing)














section \<open>Facts about a page that fails\<close>









text \<open>
  A write that raises: in the blocked world the first page is written, the write of the
  second raises \<open>IsADirectoryError\<close>, and no file appears for the third.
\<close>

lemma write_failure_example:
  "fst (convert_pdf_to_markdown (sample_library 3 None) ''doc/Report.PDF'' None blocked_world) =
     Inl (IsADirectoryError ''doc/Report_page_002.md'') \<and>
   fs (snd (convert_pdf_to_markdown (sample_library 3 None) ''doc/Report.PDF'' None
              blocked_world)) (Path ''doc/Report_page_001.md'') = Some (File ''# page 1'') \<and>
   fs (snd (convert_pdf_to_markdown (sample_library 3 None) ''doc/Report.PDF'' None
              blocked_world)) (Path ''doc/Report_page_002.md'') = Some Dir \<and>
   fs (snd (convert_pdf_to_markdown (sample_library 3 None) ''doc/Report.PDF'' None
              blocked_world)) (Path ''doc/Report_page_003.md'') = None \<and>
   stdout (snd (convert_pdf_to_markdown (sample_library 3 None) ''doc/Report.PDF'' None
                  blocked_world)) =
     [''Converting: doc/Report.PDF'', ''Total pages: 3'', ''Output directory: doc'',
      ''Images directory: doc/images'', ''  Page 1/3 -> Report_page_001.md'']"
  by code_simp

section \<open>Facts about a run with a library that is confined to the images directory\<close>

lemma not_below_sibling:
  "\<not> below (PurePath r (xs @ [a])) (PurePath r (xs @ [b]))"
  by (simp add: below_def)

lemma not_below_parent: "\<not> below (PurePath r (xs @ [a])) (PurePath r xs)"
  by (simp add: below_def)

lemma parent_snoc: "parent (PurePath r (xs @ [a])) = PurePath r xs"
  by (simp add: parent_def)

lemma lookup_cong: "fs1 q = fs0 q \<Longrightarrow> lookup fs1 q = lookup fs0 q"
  by (simp add: lookup_def)

lemma is_dir_cong: "fs1 q = fs0 q \<Longrightarrow> is_dir fs1 q = is_dir fs0 q"
  by (simp add: is_dir_def lookup_def)

lemma is_file_cong: "fs1 q = fs0 q \<Longrightarrow> is_file fs1 q = is_file fs0 q"
  by (simp add: is_file_def lookup_def)

lemma lookup_upd_other: "q \<noteq> p \<Longrightarrow> lookup (fs0(p \<mapsto> n)) q = lookup fs0 q"
  by (simp add: lookup_def)

lemma lookup_upd_same: "tail p \<noteq> [] \<Longrightarrow> lookup (fs0(p \<mapsto> n)) p = Some n"
  by (simp add: lookup_def)

lemma write_text_succeeds:
  assumes "is_dir fs0 (parent p)" and "\<not> is_dir fs0 p"
  shows "write_text fs0 p t = Inr (fs0(p \<mapsto> File t))"
  using assms by (auto simp: write_text_def is_dir_def split: option.splits node.splits)

lemma convert_page_succeeds:
  assumes conf: "library_confined E (str_path (pdf_path L)) (images_dir L)"
    and img: "images_dir L = PurePath r (xs @ [''images''])"
    and out: "output_dir L = PurePath r xs"
    and page: "page_path L i = PurePath r (xs @ [nm])"
    and od: "is_dir (fs w) (output_dir L)"
    and nd: "\<not> is_dir (fs w) (page_path L i)"
  shows "\<exists>p t w'. convert_page E L i w = (Inr p, w') \<and>
           fs w' = (after_render E L i (fs w))(page_path L i \<mapsto> File t)"
proof -
  let ?fs1 = "after_render E L i (fs w)"
  from conf obtain t where t:
    "fst (to_markdown E (str_path (pdf_path L)) i (str_path (images_dir L)) (fs w)) = Inr t"
    unfolding library_confined_def by blast
  then have tm: "to_markdown E (str_path (pdf_path L)) i (str_path (images_dir L)) (fs w) =
                   (Inr t, ?fs1)"
    by (simp add: after_render_def prod_eq_iff)
  have keep: "?fs1 q = fs w q" if "\<not> below (images_dir L) q" for q
    using conf that unfolding library_confined_def after_render_def by blast
  have "?fs1 (output_dir L) = fs w (output_dir L)"
    by (rule keep) (simp add: img out not_below_parent)
  then have d1: "is_dir ?fs1 (parent (page_path L i))"
    using od is_dir_cong [of ?fs1 "output_dir L" "fs w"] by (simp add: page out parent_snoc)
  have "?fs1 (page_path L i) = fs w (page_path L i)"
    by (rule keep) (simp add: img page not_below_sibling)
  then have d2: "\<not> is_dir ?fs1 (page_path L i)"
    using nd is_dir_cong [of ?fs1 "page_path L i" "fs w"] by simp
  from write_text_succeeds [OF d1 d2, of t] tm show ?thesis
    by (auto simp: convert_page_def page_path_def Let_def print_def)
qed

lemma convert_loop_succeeds:
  assumes conf: "library_confined E (str_path (pdf_path L)) (images_dir L)"
    and img: "images_dir L = PurePath r (xs @ [''images''])"
    and out: "output_dir L = PurePath r xs"
    and page: "\<And>i. page_path L i = PurePath r (xs @ [nm i])"
  shows "is_dir (fs w) (output_dir L) \<Longrightarrow>
         (\<And>i. i \<in> set ps \<Longrightarrow> \<not> is_dir (fs w) (page_path L i)) \<Longrightarrow>
         \<exists>files w'. convert_loop E L ps acc w = (Inr files, w') \<and>
           is_dir (fs w') (output_dir L) \<and>
           (\<forall>q. \<not> below (images_dir L) q \<longrightarrow> (\<forall>i \<in> set ps. q \<noteq> page_path L i) \<longrightarrow>
                fs w' q = fs w q) \<and>
           (\<forall>i \<in> set ps. is_file (fs w') (page_path L i))"
proof (induction ps arbitrary: acc w)
  case Nil
  then show ?case by simp
next
  case (Cons i ps)
  have nd: "\<not> is_dir (fs w) (page_path L i)" using Cons.prems(2) by simp
  from convert_page_succeeds [OF conf img out page Cons.prems(1) nd]
  obtain p t w1 where step: "convert_page E L i w = (Inr p, w1)"
    and fs1: "fs w1 = (after_render E L i (fs w))(page_path L i \<mapsto> File t)" by blast
  have keep: "after_render E L i (fs w) q = fs w q" if "\<not> below (images_dir L) q" for q
    using conf that unfolding library_confined_def after_render_def by blast
  have nb_page: "\<not> below (images_dir L) (page_path L n)" for n
    by (simp add: img page not_below_sibling)
  have nb_out: "\<not> below (images_dir L) (output_dir L)"
    by (simp add: img out not_below_parent)
  have out_page: "output_dir L \<noteq> page_path L n" for n
    by (simp add: out page)
  have other: "fs w1 q = fs w q" if "\<not> below (images_dir L) q" "q \<noteq> page_path L i" for q
    using that keep [of q] by (simp add: fs1)
  have d1: "is_dir (fs w1) (output_dir L)"
    using Cons.prems(1) other [OF nb_out out_page]
      is_dir_cong [of "fs w1" "output_dir L" "fs w"] by simp
  have file_i: "is_file (fs w1) (page_path L i)"
    by (simp add: fs1 is_file_def lookup_def page)
  have nd1: "\<not> is_dir (fs w1) (page_path L n)" if "n \<in> set ps" for n
  proof (cases "page_path L n = page_path L i")
    case True
    then show ?thesis by (simp add: fs1 is_dir_def lookup_def page)
  next
    case False
    from other [OF nb_page False] is_dir_cong [of "fs w1" "page_path L n" "fs w"]
      Cons.prems(2) [of n] that show ?thesis
      by simp
  qed
  from Cons.IH [OF d1 nd1, of "acc @ [p]"]
  obtain files w' where run: "convert_loop E L ps (acc @ [p]) w1 = (Inr files, w')"
    and d: "is_dir (fs w') (output_dir L)"
    and fr: "\<And>q. \<not> below (images_dir L) q \<Longrightarrow> (\<forall>n \<in> set ps. q \<noteq> page_path L n) \<Longrightarrow>
                  fs w' q = fs w1 q"
    and fl: "\<And>n. n \<in> set ps \<Longrightarrow> is_file (fs w') (page_path L n)"
    by blast
  have a: "convert_loop E L (i # ps) acc w = (Inr files, w')" using step run by simp
  have b: "fs w' q = fs w q"
    if "\<not> below (images_dir L) q" "\<forall>n \<in> set (i # ps). q \<noteq> page_path L n" for q
    using fr [of q] other [of q] that by simp
  have c: "is_file (fs w') (page_path L n)" if "n \<in> set (i # ps)" for n
  proof (cases "\<exists>m \<in> set ps. page_path L n = page_path L m")
    case True
    then obtain m where "m \<in> set ps" "page_path L n = page_path L m" by blast
    with fl [of m] show ?thesis by simp
  next
    case False
    with that have ni: "n = i" by auto
    from False have "\<forall>m \<in> set ps. page_path L n \<noteq> page_path L m" by blast
    from fr [OF nb_page this] is_file_cong [of "fs w'" "page_path L n" "fs w1"] file_i ni
    show ?thesis by simp
  qed
  from a b c d show ?case by blast
qed

lemma is_dir_not_file: "is_dir fs0 p \<Longrightarrow> \<not> is_file fs0 p"
  by (simp add: is_dir_def is_file_def)

lemma is_file_not_dir: "is_file fs0 p \<Longrightarrow> \<not> is_dir fs0 p"
  by (auto simp: is_dir_def is_file_def)

lemma mkdir_child:
  assumes "is_dir fs0 (parent p)" and "\<not> is_file fs0 p"
  shows "\<exists>fs1. mkdir fs0 p = Inr fs1 \<and> is_dir fs1 p \<and> (\<forall>q. q \<noteq> p \<longrightarrow> fs1 q = fs0 q)"
proof (cases "lookup fs0 p")
  case None
  with assms(1) have "mkdir fs0 p = Inr (fs0(p \<mapsto> Dir))"
    by (simp add: mkdir.simps [of fs0 p] os_mkdir_def is_dir_def)
  then show ?thesis using is_dir_upd [of fs0 p] by simp
next
  case (Some n)
  with assms(2) have "n = Dir" by (cases n) (simp_all add: is_file_def)
  with Some have "is_dir fs0 p" by (simp add: is_dir_def)
  with mkdir_existing [OF this] show ?thesis by simp
qed

lemma suffix_last: "suffix p \<noteq> [] \<Longrightarrow> last (suffix p) = last (name p)"
  by (auto simp: suffix_def Let_def split: if_splits)

lemma suffix_pdf_last:
  assumes "lower (suffix p) = ''.pdf''"
  shows "last (name p) = CHR ''f'' \<or> last (name p) = CHR ''F''"
proof -
  from assms obtain a b c where s: "suffix p = [CHR ''.'', a, b, c]"
    and c: "c \<in> {CHR ''f'', CHR ''F''}"
    unfolding lower_eq_pdf by blast
  from s have "suffix p \<noteq> []" by simp
  from suffix_last [OF this] s c show ?thesis by auto
qed

lemma pdf_not_page_file:
  assumes "lower (suffix p) = ''.pdf''"
  shows "p \<noteq> page_file s od i"
proof
  assume "p = page_file s od i"
  then have "name p = page_name s i" by (simp add: page_file_def name_def)
  then have "last (name p) = CHR ''d''" by (simp add: page_name_def)
  with suffix_pdf_last [OF assms] show False by simp
qed

lemma pdf_not_images:
  assumes "lower (suffix p) = ''.pdf''"
  shows "p \<noteq> PurePath r (xs @ [''images''])"
proof
  assume "p = PurePath r (xs @ [''images''])"
  then have "name p = ''images''" by (simp add: name_def)
  with suffix_pdf_last [OF assms] show False by simp
qed

lemma fs_print: "fs (print line w) = fs w"
  by (simp add: print_def)

lemma convert_once:
  assumes v: "validate (fs w) (Path s) = None"
    and d: "is_dir (fs w) (Path d)"
    and im: "\<not> is_file (fs w) (joinpath (Path d) ''images'')"
    and nd: "\<And>i. i < N \<Longrightarrow> \<not> is_dir (fs w) (page_file s (Some d) i)"
    and pc: "pymupdf_open E (str_path (Path s)) (fs w) = Inr N"
    and conf: "library_confined E (str_path (Path s)) (joinpath (Path d) ''images'')"
  shows "\<exists>w1. convert_pdf_to_markdown E s (Some d) w =
                (Inr (map (\<lambda>i. str_path (page_file s (Some d) i)) [0..<N]), w1) \<and>
              is_dir (fs w1) (Path d) \<and>
              is_dir (fs w1) (joinpath (Path d) ''images'') \<and>
              (\<forall>i < N. is_file (fs w1) (page_file s (Some d) i)) \<and>
              (\<forall>q. \<not> below (joinpath (Path d) ''images'') q \<longrightarrow> q \<noteq> joinpath (Path d) ''images'' \<longrightarrow>
                   (\<forall>i < N. q \<noteq> page_file s (Some d) i) \<longrightarrow> fs w1 q = fs w q)"
proof -
  let ?out = "Path d"
  let ?img = "joinpath ?out ''images''"
  let ?r = "root ?out"
  let ?xs = "tail ?out"
  have out_eq: "?out = PurePath ?r ?xs" by simp
  have img_eq: "?img = PurePath ?r (?xs @ [''images''])" by (rule joinpath_images)
  have od: "out_dir_of (Path s) (Some d) = ?out" by (simp add: out_dir_of_def)
  have pf: "page_file s (Some d) i = PurePath ?r (?xs @ [page_name s i])" for i
    by (simp add: page_file_def od)
  have res: "resolve_output_dir (fs w) (Path s) (Some d) = Inr (?out, fs w)"
    using mkdir_existing [OF d] by (simp add: resolve_output_dir_def)
  have "is_dir (fs w) (parent ?img)" using d by (simp add: img_eq parent_snoc)
  from mkdir_child [OF this im] obtain fs2 where m: "mkdir (fs w) ?img = Inr fs2"
    and d2: "is_dir fs2 ?img" and f2: "\<And>q. q \<noteq> ?img \<Longrightarrow> fs2 q = fs w q" by blast
  define L where "L = \<lparr>pdf_path = Path s, output_dir = ?out, base_name = stem (Path s),
                          total_pages = N, images_dir = ?img\<rparr>"
  define w0 where "w0 = print (''Images directory: '' @ str_path ?img)
                       (print (''Output directory: '' @ str_path ?out)
                         (print (''Total pages: '' @ str_nat N)
                           (print (''Converting: '' @ str_path (Path s))
                             (w\<lparr>fs := fs2\<rparr>))))"
  have su: "convert_setup E (Path s) (Some d) w = (Inr L, w0)"
    using res pc m by (simp add: convert_setup_def Let_def L_def w0_def)
  have fs0: "fs w0 = fs2" by (simp add: w0_def fs_print)
  have Lf: "pdf_path L = Path s" "output_dir L = PurePath ?r ?xs"
    "images_dir L = PurePath ?r (?xs @ [''images''])" "total_pages L = N"
    using img_eq by (simp_all add: L_def)
  have pp: "page_path L i = PurePath ?r (?xs @ [page_name s i])" for i
    using page_path_setup [OF su, of i] pf by simp
  have conf': "library_confined E (str_path (pdf_path L)) (images_dir L)"
    using conf by (simp add: L_def)
  have out_img: "?out \<noteq> ?img"
  proof
    assume "?out = ?img"
    then have "tail ?out = tail ?img" by simp
    then show False by (simp add: img_eq)
  qed
  have d0: "is_dir (fs w0) (output_dir L)"
    using d f2 [OF out_img] is_dir_cong [of fs2 ?out "fs w"] by (simp add: fs0 L_def)
  have nd0: "\<not> is_dir (fs w0) (page_path L i)" if "i \<in> set [0..<N]" for i
  proof -
    have "page_file s (Some d) i \<noteq> ?img" by (simp add: pf img_eq page_name_def)
    from f2 [OF this] is_dir_cong [of fs2 "page_file s (Some d) i" "fs w"] nd [of i] that
    show ?thesis by (simp add: fs0 pp pf)
  qed
  from convert_loop_succeeds [OF conf' Lf(3) Lf(2) pp d0 nd0, where acc = "[]"]
  obtain files w' where run: "convert_loop E L [0..<N] [] w0 = (Inr files, w')"
    and d': "is_dir (fs w') (output_dir L)"
    and fr: "\<And>q. \<not> below (images_dir L) q \<Longrightarrow> (\<forall>i \<in> set [0..<N]. q \<noteq> page_path L i) \<Longrightarrow>
                  fs w' q = fs w0 q"
    and fl: "\<And>i. i \<in> set [0..<N] \<Longrightarrow> is_file (fs w') (page_path L i)"
    by blast
  let ?w1 = "print (''Successfully converted '' @ str_nat N @ '' pages.'') w'"
  note fs1 = fs_print
  have files: "files = map (\<lambda>i. str_path (page_file s (Some d) i)) [0..<N]"
    using convert_loop_Inr [OF run] page_path_setup [OF su] by simp
  have "convert_validated E (Path s) (Some d) w = (Inr files, ?w1)"
    using su run by (simp add: convert_validated_def Lf)
  with validate_None_convert [OF v, of E "Some d"]
  have a: "convert_pdf_to_markdown E s (Some d) w =
             (Inr (map (\<lambda>i. str_path (page_file s (Some d) i)) [0..<N]), ?w1)"
    by (simp add: files)
  have b: "is_dir (fs ?w1) ?out" using d' by (simp add: fs1 L_def)
  have nbi: "\<not> below ?img ?img" by (simp add: below_def)
  have "fs w' ?img = fs w0 ?img"
  proof (rule fr)
    show "\<not> below (images_dir L) ?img" using nbi by (simp add: L_def)
    show "\<forall>i \<in> set [0..<N]. ?img \<noteq> page_path L i"
      by (simp add: pp img_eq page_name_def)
  qed
  with d2 is_dir_cong [of "fs w'" ?img fs2] have c: "is_dir (fs ?w1) ?img"
    by (simp add: fs1 fs0)
  have e: "\<forall>i < N. is_file (fs ?w1) (page_file s (Some d) i)"
    using fl by (simp add: fs1 pp pf)
  have f: "fs ?w1 q = fs w q"
    if "\<not> below ?img q" "q \<noteq> ?img" "\<forall>i < N. q \<noteq> page_file s (Some d) i" for q
  proof -
    have "fs w' q = fs w0 q"
    proof (rule fr)
      show "\<not> below (images_dir L) q" using that(1) by (simp add: L_def)
      show "\<forall>i \<in> set [0..<N]. q \<noteq> page_path L i" using that(3) by (simp add: pp pf)
    qed
    with f2 [OF that(2)] show ?thesis by (simp add: fs1 fs0)
  qed
  from a b c e f show ?thesis by blast
qed

lemma dir_entry:
  assumes "tail p \<noteq> []"
  shows "is_dir fs0 p \<longleftrightarrow> fs0 p = Some Dir"
  using assms by (simp add: is_dir_def lookup_def)

lemma not_file_entry:
  assumes "tail p \<noteq> []" and "\<not> is_file fs0 p" and "fs0 p \<noteq> None"
  shows "fs0 p = Some Dir"
proof -
  from assms(3) obtain n where n: "fs0 p = Some n" by blast
  with assms(1,2) show ?thesis by (cases n) (simp_all add: is_file_def lookup_def)
qed

lemma all_less_3: "P 0 \<Longrightarrow> P 1 \<Longrightarrow> P 2 \<Longrightarrow> \<forall>i < (3::nat). P i"
proof (intro allI impI)
  fix i :: nat
  assume "P 0" "P 1" "P 2" "i < 3"
  then have "i = 0 \<or> i = 1 \<or> i = 2" by arith
  with \<open>P 0\<close> \<open>P 1\<close> \<open>P 2\<close> show "P i" by blast
qed

lemma sample_library_confined:
  "library_confined (sample_library n None) src (PurePath [] [''doc'', ''images''])"
proof -
  have img: "str_path (PurePath [] [''doc'', ''images'']) = ''doc/images''" by code_simp
  have pimg: "Path ''doc/images'' = PurePath [] [''doc'', ''images'']" by code_simp
  have j: "joinpath (Path ''doc/images'') (''img_'' @ str_nat m @ ''.png'') =
             PurePath [] [''doc'', ''images'', ''img_'' @ str_nat m @ ''.png'']" for m
  proof -
    have "CHR ''/'' \<notin> set (''img_'' @ str_nat m @ ''.png'')"
      using str_nat_no_sep [of m] by simp
    then show ?thesis unfolding pimg by (subst joinpath_plain) simp_all
  qed
  have b: "below (PurePath [] [''doc'', ''images''])
             (PurePath [] [''doc'', ''images'', ''img_'' @ str_nat m @ ''.png''])" for m
    by (simp add: below_def)
  have j': "joinpath (Path ''doc/images'')
              (CHR ''i'' # CHR ''m'' # CHR ''g'' # CHR ''_'' # str_nat m @ ''.png'') =
            PurePath [] [''doc'', ''images'',
              CHR ''i'' # CHR ''m'' # CHR ''g'' # CHR ''_'' # str_nat m @ ''.png'']" for m
    using j [of m] by simp
  show ?thesis
    unfolding library_confined_def using b
    by (auto simp: sample_library_def img j')
qed

section \<open>Properties of the program\<close>

subsection \<open>One path per page\<close>

text \<open>
  C1. When the call returns, it returns one path per page of the document, in page order:
  the entry at index \<open>i\<close> is the output directory joined with the file name
  \<open>{base}_page_{i+1:03d}.md\<close>. The page number is written in decimal with at least three
  digits and denotes \<open>i + 1\<close> whatever its size (from 100 on it is the plain decimal
  numeral), and the paths are pairwise distinct for every page count.
\<close>

theorem output_paths_per_page:
  assumes "convert_pdf_to_markdown E s od w = (Inr files, w')"
  shows "reported_pages E s od w = Some (length files) \<and>
         (\<forall>i < length files.
            files ! i = str_path (page_file s od i) \<and>
            name (page_file s od i) = stem (Path s) @ ''_page_'' @ format_03d (i + 1) @ ''.md'' \<and>
            3 \<le> length (format_03d (i + 1)) \<and>
            decimal_value (format_03d (i + 1)) = i + 1 \<and>
            (100 \<le> i + 1 \<longrightarrow> format_03d (i + 1) = str_nat (i + 1))) \<and>
         distinct files"
proof -
  from convert_files [OF assms] obtain N where n: "reported_pages E s od w = Some N"
    and files: "files = map (\<lambda>i. str_path (page_file s od i)) [0..<N]" by blast
  have len: "length files = N" using files by simp
  have "inj_on (\<lambda>i. str_path (page_file s od i)) (set [0..<N])"
    by (rule inj_onI) (rule str_page_file_inj)
  then have d: "distinct files" unfolding files by (simp add: distinct_map)
  have "name (page_file s od i) = stem (Path s) @ ''_page_'' @ format_03d (i + 1) @ ''.md''" for i
    by (simp add: page_file_def name_def page_name_def)
  then show ?thesis
    using n d len files
    by (simp add: length_format_03d decimal_value_format_03d format_03d_wide)
qed

theorem output_paths_witness:
  "convert_pdf_to_markdown (sample_library 3 None) ''doc/Report.PDF'' (Some ''out'') sample_world =
     (Inr [''out/Report_page_001.md'', ''out/Report_page_002.md'', ''out/Report_page_003.md''],
      snd (convert_pdf_to_markdown (sample_library 3 None) ''doc/Report.PDF'' (Some ''out'')
             sample_world)) \<and>
   reported_pages (sample_library 3 None) ''doc/Report.PDF'' (Some ''out'') sample_world = Some 3 \<and>
   str_path (page_file ''doc/Report.PDF'' (Some ''out'') 1) = ''out/Report_page_002.md'' \<and>
   distinct [''out/Report_page_001.md'', ''out/Report_page_002.md'', ''out/Report_page_003.md'']"
proof -
  have "fst (convert_pdf_to_markdown (sample_library 3 None) ''doc/Report.PDF'' (Some ''out'')
               sample_world) =
        Inr [''out/Report_page_001.md'', ''out/Report_page_002.md'', ''out/Report_page_003.md'']"
    by code_simp
  then have h:
    "convert_pdf_to_markdown (sample_library 3 None) ''doc/Report.PDF'' (Some ''out'') sample_world =
       (Inr [''out/Report_page_001.md'', ''out/Report_page_002.md'', ''out/Report_page_003.md''],
        snd (convert_pdf_to_markdown (sample_library 3 None) ''doc/Report.PDF'' (Some ''out'')
               sample_world))"
    by (simp add: prod_eq_iff)
  have "(1::nat) < length [''out/Report_page_001.md'', ''out/Report_page_002.md'',
                           ''out/Report_page_003.md'']"
    by simp
  with output_paths_per_page [OF h] h show ?thesis by auto
qed

subsection \<open>The two checks and their order\<close>



subsection \<open>The extension check ignores case\<close>

text \<open>
  C3. For an existing file, whatever its content, the check looks at the suffix in lower
  case only. The suffix passes exactly when it is a dot followed by \<open>p\<close>, \<open>d\<close>, \<open>f\<close>, each
  in either case; then the call is past validation, and its outcome is that of the steps
  after the two checks. Any other suffix raises \<open>ValueError\<close> and leaves the world as it
  was.
\<close>

theorem extension_check_case_insensitive:
  assumes "lookup (fs w) (Path s) = Some (File content)"
  shows "(lower (suffix (Path s)) = ''.pdf'' \<longleftrightarrow>
            (\<exists>a b c. suffix (Path s) = [CHR ''.'', a, b, c] \<and> a \<in> {CHR ''p'', CHR ''P''} \<and>
                     b \<in> {CHR ''d'', CHR ''D''} \<and> c \<in> {CHR ''f'', CHR ''F''})) \<and>
         (lower (suffix (Path s)) = ''.pdf'' \<longrightarrow>
            validate (fs w) (Path s) = None \<and>
            convert_pdf_to_markdown E s od w = convert_validated E (Path s) od w) \<and>
         (lower (suffix (Path s)) \<noteq> ''.pdf'' \<longrightarrow>
            convert_pdf_to_markdown E s od w =
              (Inl (ValueError (''File does not appear to be a PDF: '' @ str_path (Path s))), w))"
proof -
  have ex: "exists (fs w) (Path s)" using assms by (simp add: exists_def)
  have v: "lower (suffix (Path s)) = ''.pdf'' \<Longrightarrow> validate (fs w) (Path s) = None"
    using ex by (simp add: validate_None)
  show ?thesis
    using convert_valid [OF ex, of E od] convert_not_pdf [OF ex, of E od] v
      lower_eq_pdf [of "suffix (Path s)"]
    by blast
qed

theorem extension_check_witness:
  "lookup (fs sample_world) (Path ''doc/Report.PDF'') = Some (File ''%PDF-1.7'') \<and>
   lower (suffix (Path ''doc/Report.PDF'')) = ''.pdf'' \<and>
   convert_pdf_to_markdown (sample_library 3 None) ''doc/Report.PDF'' None sample_world =
     convert_validated (sample_library 3 None) (Path ''doc/Report.PDF'') None sample_world \<and>
   fst (convert_pdf_to_markdown (sample_library 3 None) ''doc/Report.PDF'' None sample_world) =
     Inr [''doc/Report_page_001.md'', ''doc/Report_page_002.md'', ''doc/Report_page_003.md''] \<and>
   lookup (fs sample_world) (Path ''doc/report.txt'') = Some (File ''%PDF-1.7'') \<and>
   lower (suffix (Path ''doc/report.txt'')) \<noteq> ''.pdf'' \<and>
   convert_pdf_to_markdown (sample_library 3 None) ''doc/report.txt'' None sample_world =
     (Inl (ValueError ''File does not appear to be a PDF: doc/report.txt''), sample_world)"
proof -
  have a: "lookup (fs sample_world) (Path ''doc/Report.PDF'') = Some (File ''%PDF-1.7'')"
    by code_simp
  have b: "lower (suffix (Path ''doc/Report.PDF'')) = ''.pdf''"
    by code_simp
  have c: "fst (convert_pdf_to_markdown (sample_library 3 None) ''doc/Report.PDF'' None
                  sample_world) =
           Inr [''doc/Report_page_001.md'', ''doc/Report_page_002.md'', ''doc/Report_page_003.md'']"
    by code_simp
  have d: "lookup (fs sample_world) (Path ''doc/report.txt'') = Some (File ''%PDF-1.7'')"
    by code_simp
  have e: "lower (suffix (Path ''doc/report.txt'')) \<noteq> ''.pdf''"
    by code_simp
  have f: "str_path (Path ''doc/report.txt'') = ''doc/report.txt''"
    by code_simp
  from extension_check_case_insensitive [OF a, of "sample_library 3 None" None] b
  have g: "convert_pdf_to_markdown (sample_library 3 None) ''doc/Report.PDF'' None sample_world =
     convert_validated (sample_library 3 None) (Path ''doc/Report.PDF'') None sample_world"
    by blast
  from extension_check_case_insensitive [OF d, of "sample_library 3 None" None] e f
  have h: "convert_pdf_to_markdown (sample_library 3 None) ''doc/report.txt'' None sample_world =
     (Inl (ValueError ''File does not appear to be a PDF: doc/report.txt''), sample_world)"
    by simp
  from a b c d e g h show ?thesis by blast
qed

subsection \<open>A failing page ends the run\<close>



subsection \<open>A document without pages\<close>



subsection \<open>A directory as source\<close>




subsection \<open>The progress lines\<close>

text \<open>
  C7, as the code has it. The progress line of a page is two spaces followed by
  \<open>Page {i+1}/{total_pages} -> {filename}\<close>. A call that returns has printed the four
  header lines, one such line for every page in page order, and the summary line; a call
  that raises has printed nothing, or the header lines and the progress lines of the
  pages before the one that failed.
\<close>

theorem progress_lines_indented:
  assumes "convert_pdf_to_markdown E s od w = (r, w')"
  shows "(\<forall>files. r = Inr files \<longrightarrow>
            stdout w' = stdout w @ header_lines s od (length files) @
              map (\<lambda>i. ''  Page '' @ str_nat (i + 1) @ ''/'' @ str_nat (length files) @ '' -> ''
                         @ page_name s i) [0..<length files] @
              [''Successfully converted '' @ str_nat (length files) @ '' pages.'']) \<and>
         (\<forall>e. r = Inl e \<longrightarrow>
            stdout w' = stdout w \<or>
            (\<exists>n k. reported_pages E s od w = Some n \<and> k < n \<and>
               stdout w' = stdout w @ header_lines s od n @
                 map (\<lambda>i. ''  Page '' @ str_nat (i + 1) @ ''/'' @ str_nat n @ '' -> ''
                            @ page_name s i) [0..<k]))"
proof -
  have pl: "page_line s n = (\<lambda>i. ''  Page '' @ str_nat (i + 1) @ ''/'' @ str_nat n @ '' -> ''
                         @ page_name s i)" for n
    by (rule ext) (simp add: page_line_def)
  show ?thesis
    using assms stdout_success [of E s od w _ w'] stdout_failure [of E s od w _ w']
    unfolding pl by blast
qed

theorem progress_lines_witness:
  "convert_pdf_to_markdown (sample_library 2 None) ''doc/Report.PDF'' None sample_world =
     (Inr [''doc/Report_page_001.md'', ''doc/Report_page_002.md''],
      snd (convert_pdf_to_markdown (sample_library 2 None) ''doc/Report.PDF'' None sample_world)) \<and>
   stdout (snd (convert_pdf_to_markdown (sample_library 2 None) ''doc/Report.PDF'' None
                  sample_world)) =
     stdout sample_world @ header_lines ''doc/Report.PDF'' None 2 @
       [''  Page 1/2 -> Report_page_001.md'', ''  Page 2/2 -> Report_page_002.md'',
        ''Successfully converted 2 pages.''] \<and>
   convert_pdf_to_markdown (sample_library 3 (Some 1)) ''doc/Report.PDF'' None sample_world =
     (Inl (LibraryError ''cannot render''),
      snd (convert_pdf_to_markdown (sample_library 3 (Some 1)) ''doc/Report.PDF'' None
             sample_world)) \<and>
   stdout (snd (convert_pdf_to_markdown (sample_library 3 (Some 1)) ''doc/Report.PDF'' None
                  sample_world)) =
     stdout sample_world @ header_lines ''doc/Report.PDF'' None 3 @
       [''  Page 1/3 -> Report_page_001.md'']"
proof -
  have "fst (convert_pdf_to_markdown (sample_library 2 None) ''doc/Report.PDF'' None
               sample_world) =
        Inr [''doc/Report_page_001.md'', ''doc/Report_page_002.md'']"
    by code_simp
  then have h:
    "convert_pdf_to_markdown (sample_library 2 None) ''doc/Report.PDF'' None sample_world =
       (Inr [''doc/Report_page_001.md'', ''doc/Report_page_002.md''],
        snd (convert_pdf_to_markdown (sample_library 2 None) ''doc/Report.PDF'' None
               sample_world))"
    by (simp add: prod_eq_iff)
  have "fst (convert_pdf_to_markdown (sample_library 3 (Some 1)) ''doc/Report.PDF'' None
               sample_world) =
        Inl (LibraryError ''cannot render'')"
    by code_simp
  then have g:
    "convert_pdf_to_markdown (sample_library 3 (Some 1)) ''doc/Report.PDF'' None sample_world =
       (Inl (LibraryError ''cannot render''),
        snd (convert_pdf_to_markdown (sample_library 3 (Some 1)) ''doc/Report.PDF'' None
               sample_world))"
    by (simp add: prod_eq_iff)
  have lines:
    "map (\<lambda>i. ''  Page '' @ str_nat (i + 1) @ ''/'' @ str_nat 2 @ '' -> ''
                @ page_name ''doc/Report.PDF'' i) [0..<2] =
       [''  Page 1/2 -> Report_page_001.md'', ''  Page 2/2 -> Report_page_002.md'']"
    "''Successfully converted '' @ str_nat 2 @ '' pages.'' = ''Successfully converted 2 pages.''"
    by code_simp+
  have failing:
    "stdout (snd (convert_pdf_to_markdown (sample_library 3 (Some 1)) ''doc/Report.PDF'' None
                    sample_world)) =
       stdout sample_world @ header_lines ''doc/Report.PDF'' None 3 @
         [''  Page 1/3 -> Report_page_001.md'']"
    by code_simp
  have len: "length [''doc/Report_page_001.md'', ''doc/Report_page_002.md''] = 2"
    by simp
  from progress_lines_indented [OF h]
  have "stdout (snd (convert_pdf_to_markdown (sample_library 2 None) ''doc/Report.PDF'' None
                       sample_world)) =
     stdout sample_world @
       header_lines ''doc/Report.PDF'' None
         (length [''doc/Report_page_001.md'', ''doc/Report_page_002.md'']) @
       map (\<lambda>i. ''  Page '' @ str_nat (i + 1) @ ''/'' @
                  str_nat (length [''doc/Report_page_001.md'', ''doc/Report_page_002.md'']) @
                  '' -> '' @ page_name ''doc/Report.PDF'' i)
         [0..<length [''doc/Report_page_001.md'', ''doc/Report_page_002.md'']] @
       [''Successfully converted '' @
          str_nat (length [''doc/Report_page_001.md'', ''doc/Report_page_002.md'']) @ '' pages.'']"
    by blast
  then have "stdout (snd (convert_pdf_to_markdown (sample_library 2 None) ''doc/Report.PDF'' None
                       sample_world)) =
     stdout sample_world @ header_lines ''doc/Report.PDF'' None 2 @
       [''  Page 1/2 -> Report_page_001.md'', ''  Page 2/2 -> Report_page_002.md''] @
       [''Successfully converted 2 pages.'']"
    unfolding len lines .
  then have "stdout (snd (convert_pdf_to_markdown (sample_library 2 None) ''doc/Report.PDF'' None
                       sample_world)) =
     stdout sample_world @ header_lines ''doc/Report.PDF'' None 2 @
       [''  Page 1/2 -> Report_page_001.md'', ''  Page 2/2 -> Report_page_002.md'',
        ''Successfully converted 2 pages.'']"
    by simp
  with h g failing show ?thesis by blast
qed

text \<open>
  C7, as the claim has it: a run over two pages returns, and the line
  \<open>Page 1/2 -> Report_page_001.md\<close> is not among the lines printed; the line printed
  for the first page starts with two spaces.
\<close>

theorem progress_line_counterexample:
  "fst (convert_pdf_to_markdown (sample_library 2 None) ''doc/Report.PDF'' None sample_world) =
     Inr [''doc/Report_page_001.md'', ''doc/Report_page_002.md''] \<and>
   ''Page 1/2 -> Report_page_001.md'' \<notin>
     set (stdout (snd (convert_pdf_to_markdown (sample_library 2 None) ''doc/Report.PDF'' None
                         sample_world))) \<and>
   stdout (snd (convert_pdf_to_markdown (sample_library 2 None) ''doc/Report.PDF'' None
                  sample_world)) =
     [''Converting: doc/Report.PDF'', ''Total pages: 2'', ''Output directory: doc'',
      ''Images directory: doc/images'', ''  Page 1/2 -> Report_page_001.md'',
      ''  Page 2/2 -> Report_page_002.md'', ''Successfully converted 2 pages.'']"
  by code_simp

subsection \<open>Creating directories that exist\<close>

text \<open>
  C8. Creating a directory that exists is a step without effect and without error. Let
  the source pass the two checks, let the output directory exist, let no regular file sit
  at the images path and no directory at a page's path, and let the library report \<open>N\<close>
  pages whenever the source is as it is now, render every page, and write below the
  images directory only (the source not being there). Then a first call returns the
  \<open>N\<close> paths, a second call in the world the first one leaves returns them again, both
  directory creations of the second call change nothing, and every entry that existed
  before the first call, other than the page files and what lies below the images
  directory, is the same after the first and after the second call.
\<close>

theorem directory_creation_idempotent:
  assumes "validate (fs w) (Path s) = None"
    and "is_dir (fs w) (Path d)"
    and "\<not> is_file (fs w) (joinpath (Path d) ''images'')"
    and "\<forall>i < N. \<not> is_dir (fs w) (page_file s (Some d) i)"
    and "\<forall>fs0. lookup fs0 (Path s) = lookup (fs w) (Path s) \<longrightarrow>
               pymupdf_open E (str_path (Path s)) fs0 = Inr N"
    and "library_confined E (str_path (Path s)) (joinpath (Path d) ''images'')"
    and "\<not> below (joinpath (Path d) ''images'') (Path s)"
  shows "mkdir (fs w) (Path d) = Inr (fs w) \<and>
         (\<exists>w1 w2.
            convert_pdf_to_markdown E s (Some d) w =
              (Inr (map (\<lambda>i. str_path (page_file s (Some d) i)) [0..<N]), w1) \<and>
            convert_pdf_to_markdown E s (Some d) w1 =
              (Inr (map (\<lambda>i. str_path (page_file s (Some d) i)) [0..<N]), w2) \<and>
            mkdir (fs w1) (Path d) = Inr (fs w1) \<and>
            mkdir (fs w1) (joinpath (Path d) ''images'') = Inr (fs w1) \<and>
            (\<forall>q. fs w q \<noteq> None \<and> \<not> below (joinpath (Path d) ''images'') q \<and>
                  (\<forall>i < N. q \<noteq> page_file s (Some d) i) \<longrightarrow>
                  fs w1 q = fs w q \<and> fs w2 q = fs w q))"
proof -
  let ?img = "joinpath (Path d) ''images''"
  have img_eq: "?img = PurePath (root (Path d)) (tail (Path d) @ [''images''])"
    by (rule joinpath_images)
  have timg: "tail ?img \<noteq> []" by (simp add: img_eq)
  have pdf: "lower (suffix (Path s)) = ''.pdf''" using assms(1) by (simp add: validate_None)
  have pc0: "pymupdf_open E (str_path (Path s)) (fs w) = Inr N" using assms(5) by simp
  have nd0: "\<not> is_dir (fs w) (page_file s (Some d) i)" if "i < N" for i
    using assms(4) that by blast
  from convert_once [OF assms(1,2,3) nd0 pc0 assms(6)]
  obtain w1 where a1: "convert_pdf_to_markdown E s (Some d) w =
                (Inr (map (\<lambda>i. str_path (page_file s (Some d) i)) [0..<N]), w1)"
    and b1: "is_dir (fs w1) (Path d)" and c1: "is_dir (fs w1) ?img"
    and e1: "\<forall>i < N. is_file (fs w1) (page_file s (Some d) i)"
    and f1: "\<And>q. \<not> below ?img q \<Longrightarrow> q \<noteq> ?img \<Longrightarrow> \<forall>i < N. q \<noteq> page_file s (Some d) i \<Longrightarrow>
                  fs w1 q = fs w q"
    by blast
  have "Path s \<noteq> ?img" unfolding img_eq using pdf by (rule pdf_not_images)
  moreover have "\<forall>i < N. Path s \<noteq> page_file s (Some d) i"
    using pdf_not_page_file [OF pdf] by blast
  ultimately have "fs w1 (Path s) = fs w (Path s)" using assms(7) by (intro f1)
  then have same: "lookup (fs w1) (Path s) = lookup (fs w) (Path s)" by (rule lookup_cong)
  then have v1: "validate (fs w1) (Path s) = None"
    using assms(1) by (simp add: validate_def exists_def)
  have pc1: "pymupdf_open E (str_path (Path s)) (fs w1) = Inr N" using assms(5) same by simp
  have nd1: "\<not> is_dir (fs w1) (page_file s (Some d) i)" if "i < N" for i
    using e1 that by (blast dest: is_file_not_dir)
  from convert_once [OF v1 b1 is_dir_not_file [OF c1] nd1 pc1 assms(6)]
  obtain w2 where a2: "convert_pdf_to_markdown E s (Some d) w1 =
                (Inr (map (\<lambda>i. str_path (page_file s (Some d) i)) [0..<N]), w2)"
    and c2: "is_dir (fs w2) ?img"
    and f2: "\<And>q. \<not> below ?img q \<Longrightarrow> q \<noteq> ?img \<Longrightarrow> \<forall>i < N. q \<noteq> page_file s (Some d) i \<Longrightarrow>
                  fs w2 q = fs w1 q"
    by blast
  have fr: "fs w1 q = fs w q \<and> fs w2 q = fs w q"
    if "fs w q \<noteq> None" "\<not> below ?img q" "\<forall>i < N. q \<noteq> page_file s (Some d) i" for q
  proof (cases "q = ?img")
    case False
    from f1 [OF that(2) False that(3)] f2 [OF that(2) False that(3)] show ?thesis by simp
  next
    case True
    from not_file_entry [OF timg assms(3)] that(1) True have "fs w q = Some Dir" by simp
    moreover from c1 True have "fs w1 q = Some Dir" by (simp add: dir_entry [OF timg])
    moreover from c2 True have "fs w2 q = Some Dir" by (simp add: dir_entry [OF timg])
    ultimately show ?thesis by simp
  qed
  from mkdir_existing [OF assms(2)] a1 a2 mkdir_existing [OF b1] mkdir_existing [OF c1] fr
  show ?thesis by blast
qed

theorem directory_creation_witness:
  "mkdir (fs sample_world) (Path ''doc'') = Inr (fs sample_world) \<and>
   fst (convert_pdf_to_markdown (sample_library 3 None) ''doc/Report.PDF'' (Some ''doc'')
          sample_world) =
     Inr [''doc/Report_page_001.md'', ''doc/Report_page_002.md'', ''doc/Report_page_003.md''] \<and>
   fst (convert_pdf_to_markdown (sample_library 3 None) ''doc/Report.PDF'' (Some ''doc'')
          (snd (convert_pdf_to_markdown (sample_library 3 None) ''doc/Report.PDF'' (Some ''doc'')
                  sample_world))) =
     Inr [''doc/Report_page_001.md'', ''doc/Report_page_002.md'', ''doc/Report_page_003.md''] \<and>
   fs sample_world (Path ''doc/report.txt'') = Some (File ''%PDF-1.7'') \<and>
   fs (snd (convert_pdf_to_markdown (sample_library 3 None) ''doc/Report.PDF'' (Some ''doc'')
              sample_world)) (Path ''doc/report.txt'') = fs sample_world (Path ''doc/report.txt'') \<and>
   fs (snd (convert_pdf_to_markdown (sample_library 3 None) ''doc/Report.PDF'' (Some ''doc'')
              (snd (convert_pdf_to_markdown (sample_library 3 None) ''doc/Report.PDF''
                      (Some ''doc'') sample_world)))) (Path ''doc/report.txt'') =
     fs sample_world (Path ''doc/report.txt'')"
proof -
  let ?E = "sample_library 3 None"
  let ?q = "Path ''doc/report.txt''"
  have v: "validate (fs sample_world) (Path ''doc/Report.PDF'') = None" by code_simp
  have d: "is_dir (fs sample_world) (Path ''doc'')" by code_simp
  have img: "joinpath (Path ''doc'') ''images'' = PurePath [] [''doc'', ''images'']" by code_simp
  have im: "\<not> is_file (fs sample_world) (joinpath (Path ''doc'') ''images'')" by code_simp
  have nd: "\<forall>i < 3. \<not> is_dir (fs sample_world) (page_file ''doc/Report.PDF'' (Some ''doc'') i)"
    by (rule all_less_3) code_simp+
  have rt: "Path (str_path (Path ''doc/Report.PDF'')) = Path ''doc/Report.PDF''" by code_simp
  have lk: "lookup (fs sample_world) (Path ''doc/Report.PDF'') = Some (File ''%PDF-1.7'')"
    by code_simp
  have pc: "\<forall>fs0. lookup fs0 (Path ''doc/Report.PDF'') =
                   lookup (fs sample_world) (Path ''doc/Report.PDF'') \<longrightarrow>
               pymupdf_open ?E (str_path (Path ''doc/Report.PDF'')) fs0 = Inr 3"
    by (simp add: sample_library_def rt lk)
  have conf: "library_confined ?E (str_path (Path ''doc/Report.PDF''))
                (joinpath (Path ''doc'') ''images'')"
    unfolding img by (rule sample_library_confined)
  have nb: "\<not> below (joinpath (Path ''doc'') ''images'') (Path ''doc/Report.PDF'')"
    by code_simp
  have files: "map (\<lambda>i. str_path (page_file ''doc/Report.PDF'' (Some ''doc'') i)) [0..<3] =
     [''doc/Report_page_001.md'', ''doc/Report_page_002.md'', ''doc/Report_page_003.md'']"
    by code_simp
  have q1: "fs sample_world ?q = Some (File ''%PDF-1.7'')" by code_simp
  have q2: "\<not> below (joinpath (Path ''doc'') ''images'') ?q" by code_simp
  have q3: "\<forall>i < 3. ?q \<noteq> page_file ''doc/Report.PDF'' (Some ''doc'') i"
    by (rule all_less_3) code_simp+
  from directory_creation_idempotent [OF v d im nd pc conf nb]
  obtain w1 w2 where m: "mkdir (fs sample_world) (Path ''doc'') = Inr (fs sample_world)"
    and a1: "convert_pdf_to_markdown ?E ''doc/Report.PDF'' (Some ''doc'') sample_world =
       (Inr (map (\<lambda>i. str_path (page_file ''doc/Report.PDF'' (Some ''doc'') i)) [0..<3]), w1)"
    and a2: "convert_pdf_to_markdown ?E ''doc/Report.PDF'' (Some ''doc'') w1 =
       (Inr (map (\<lambda>i. str_path (page_file ''doc/Report.PDF'' (Some ''doc'') i)) [0..<3]), w2)"
    and fr: "\<And>q. fs sample_world q \<noteq> None \<Longrightarrow>
               \<not> below (joinpath (Path ''doc'') ''images'') q \<Longrightarrow>
               \<forall>i < 3. q \<noteq> page_file ''doc/Report.PDF'' (Some ''doc'') i \<Longrightarrow>
               fs w1 q = fs sample_world q \<and> fs w2 q = fs sample_world q"
    by blast
  have w1: "snd (convert_pdf_to_markdown ?E ''doc/Report.PDF'' (Some ''doc'') sample_world) = w1"
    using a1 by simp
  have w2: "snd (convert_pdf_to_markdown ?E ''doc/Report.PDF'' (Some ''doc'') w1) = w2"
    using a2 by simp
  have "fs sample_world ?q \<noteq> None" using q1 by simp
  from fr [OF this q2 q3] have k: "fs w1 ?q = fs sample_world ?q" "fs w2 ?q = fs sample_world ?q"
    by simp_all
  show ?thesis
    unfolding w1 w2 using m a1 a2 k q1 unfolding files by simp
qed

subsection \<open>The paths do not depend on the rendering\<close>

text \<open>
  C9. Two calls with the same arguments that both return, over documents of the same
  page count, return the same list of paths, whatever the libraries rendered and
  whatever the two worlds held.
\<close>

theorem paths_independent_of_rendering:
  assumes "convert_pdf_to_markdown E1 s od w1 = (Inr files1, w1')"
    and "convert_pdf_to_markdown E2 s od w2 = (Inr files2, w2')"
    and "reported_pages E1 s od w1 = reported_pages E2 s od w2"
  shows "files1 = files2"
  using convert_files [OF assms(1)] convert_files [OF assms(2)] assms(3) by auto

theorem paths_independent_witness:
  "convert_pdf_to_markdown (sample_library 2 None) ''doc/Report.PDF'' (Some ''out'') sample_world =
     (Inr [''out/Report_page_001.md'', ''out/Report_page_002.md''],
      snd (convert_pdf_to_markdown (sample_library 2 None) ''doc/Report.PDF'' (Some ''out'')
             sample_world)) \<and>
   convert_pdf_to_markdown
       ((sample_library 2 None)\<lparr>to_markdown := \<lambda>p i img fs0. (Inr ''(blank)'', fs0)\<rparr>)
       ''doc/Report.PDF'' (Some ''out'') sample_world =
     (Inr [''out/Report_page_001.md'', ''out/Report_page_002.md''],
      snd (convert_pdf_to_markdown
             ((sample_library 2 None)\<lparr>to_markdown := \<lambda>p i img fs0. (Inr ''(blank)'', fs0)\<rparr>)
             ''doc/Report.PDF'' (Some ''out'') sample_world)) \<and>
   reported_pages (sample_library 2 None) ''doc/Report.PDF'' (Some ''out'') sample_world =
     reported_pages ((sample_library 2 None)\<lparr>to_markdown := \<lambda>p i img fs0. (Inr ''(blank)'', fs0)\<rparr>)
       ''doc/Report.PDF'' (Some ''out'') sample_world \<and>
   fs (snd (convert_pdf_to_markdown (sample_library 2 None) ''doc/Report.PDF'' (Some ''out'')
              sample_world)) (Path ''out/Report_page_001.md'') = Some (File ''# page 1'') \<and>
   fs (snd (convert_pdf_to_markdown
              ((sample_library 2 None)\<lparr>to_markdown := \<lambda>p i img fs0. (Inr ''(blank)'', fs0)\<rparr>)
              ''doc/Report.PDF'' (Some ''out'') sample_world)) (Path ''out/Report_page_001.md'') =
     Some (File ''(blank)'')"
proof -
  have "fst (convert_pdf_to_markdown (sample_library 2 None) ''doc/Report.PDF'' (Some ''out'')
               sample_world) =
        Inr [''out/Report_page_001.md'', ''out/Report_page_002.md'']"
    by code_simp
  then have h1:
    "convert_pdf_to_markdown (sample_library 2 None) ''doc/Report.PDF'' (Some ''out'') sample_world =
       (Inr [''out/Report_page_001.md'', ''out/Report_page_002.md''],
        snd (convert_pdf_to_markdown (sample_library 2 None) ''doc/Report.PDF'' (Some ''out'')
               sample_world))"
    by (simp add: prod_eq_iff)
  have "fst (convert_pdf_to_markdown
            ((sample_library 2 None)\<lparr>to_markdown := \<lambda>p i img fs0. (Inr ''(blank)'', fs0)\<rparr>)
            ''doc/Report.PDF'' (Some ''out'') sample_world) =
        Inr [''out/Report_page_001.md'', ''out/Report_page_002.md'']"
    by code_simp
  then have h2:
    "convert_pdf_to_markdown
         ((sample_library 2 None)\<lparr>to_markdown := \<lambda>p i img fs0. (Inr ''(blank)'', fs0)\<rparr>)
         ''doc/Report.PDF'' (Some ''out'') sample_world =
       (Inr [''out/Report_page_001.md'', ''out/Report_page_002.md''],
        snd (convert_pdf_to_markdown
               ((sample_library 2 None)\<lparr>to_markdown := \<lambda>p i img fs0. (Inr ''(blank)'', fs0)\<rparr>)
               ''doc/Report.PDF'' (Some ''out'') sample_world))"
    by (simp add: prod_eq_iff)
  have h3:
    "reported_pages (sample_library 2 None) ''doc/Report.PDF'' (Some ''out'') sample_world =
     reported_pages ((sample_library 2 None)\<lparr>to_markdown := \<lambda>p i img fs0. (Inr ''(blank)'', fs0)\<rparr>)
       ''doc/Report.PDF'' (Some ''out'') sample_world"
    by code_simp
  have c1:
    "fs (snd (convert_pdf_to_markdown (sample_library 2 None) ''doc/Report.PDF'' (Some ''out'')
              sample_world)) (Path ''out/Report_page_001.md'') = Some (File ''# page 1'')"
    by code_simp
  have c2:
    "fs (snd (convert_pdf_to_markdown
              ((sample_library 2 None)\<lparr>to_markdown := \<lambda>p i img fs0. (Inr ''(blank)'', fs0)\<rparr>)
              ''doc/Report.PDF'' (Some ''out'') sample_world)) (Path ''out/Report_page_001.md'') =
     Some (File ''(blank)'')"
    by code_simp
  from paths_independent_of_rendering [OF h1 h2 h3] h1 h2 h3 c1 c2
  show ?thesis by blast
qed

subsection \<open>A file named .pdf\<close>

text \<open>
  C10. An existing file whose whole name is \<open>.pdf\<close> has an empty suffix, and the call
  raises \<open>ValueError\<close> and leaves the world as it found it.
\<close>

theorem bare_dot_pdf_rejected:
  assumes "exists (fs w) (Path s)" and "name (Path s) = ''.pdf''"
  shows "suffix (Path s) = [] \<and>
         convert_pdf_to_markdown E s od w =
           (Inl (ValueError (''File does not appear to be a PDF: '' @ str_path (Path s))), w)"
proof -
  have "suffix (Path s) = []" using assms(2) by (simp add: suffix_def Let_def)
  then show ?thesis using convert_not_pdf [OF assms(1), of E od] by (simp add: lower_def)
qed

theorem bare_dot_pdf_witness:
  "exists (fs sample_world) (Path ''doc/.pdf'') \<and> name (Path ''doc/.pdf'') = ''.pdf'' \<and>
   convert_pdf_to_markdown (sample_library 3 None) ''doc/.pdf'' None sample_world =
     (Inl (ValueError ''File does not appear to be a PDF: doc/.pdf''), sample_world)"
proof -
  have a: "exists (fs sample_world) (Path ''doc/.pdf'')"
    by (simp add: sample_paths exists_def lookup_def sample_world_def sample_fs_def)
  have b: "name (Path ''doc/.pdf'') = ''.pdf''"
    by (simp add: sample_paths name_def)
  have d: "str_path (Path ''doc/.pdf'') = ''doc/.pdf''"
    by (simp add: sample_paths str_path_def)
  from bare_dot_pdf_rejected [OF a b, of "sample_library 3 None" None] a b d
  show ?thesis by simp
qed

end
